theory Spec2Isabelle
  imports Complex_Main "HOL-Library.Word" "HOL-Library.AList"
begin

section \<open>Values and text\<close>

text \<open>
  A value produced by \<^verbatim>\<open>JSON.parse\<close>. An object keeps its properties in insertion
  order as an association list; reading a property takes the first entry for the key
  and writing one replaces it in place or appends it (\<open>AList.update\<close>), as a
  JavaScript object does. The strings inside values are HOL strings: the code only
  compares them with ASCII literals and otherwise passes them through.
\<close>

datatype json =
    JNull
  | JBool bool
  | JNum rat
  | JString string
  | JArray "json list"
  | JObject "(string \<times> json) list"

text \<open>
  Text read off the wire is a JavaScript string: a list of UTF-16 code units.
  Raw stream chunks are lists of bytes.
\<close>

type_synonym code_unit = "16 word"

type_synonym jstext = "code_unit list"

type_synonym byte = "8 word"

text \<open>\<^verbatim>\<open>obj[k]\<close> on a parsed value; \<open>None\<close> is \<^verbatim>\<open>undefined\<close>. Only the keys
  \<^verbatim>\<open>type\<close>, \<^verbatim>\<open>uuid\<close>, \<^verbatim>\<open>session_id\<close>, \<^verbatim>\<open>parent_tool_use_id\<close>, \<^verbatim>\<open>message\<close>,
  \<^verbatim>\<open>subtype\<close>, \<^verbatim>\<open>error\<close>, \<^verbatim>\<open>content\<close>, \<^verbatim>\<open>text\<close> are ever read, none of which an
  array or \<^verbatim>\<open>Object.prototype\<close> provides.\<close>

definition get_prop :: "json \<Rightarrow> string \<Rightarrow> json option" where
  "get_prop v k = (case v of JObject kvs \<Rightarrow> map_of kvs k | _ \<Rightarrow> None)"

text \<open>\<^verbatim>\<open>obj[k] = v\<close> on an object.\<close>

definition set_prop :: "string \<Rightarrow> json \<Rightarrow> (string \<times> json) list \<Rightarrow> (string \<times> json) list" where
  "set_prop k v kvs = AList.update k v kvs"

datatype js_type = Undefined | Object | Boolean | Number | String

fun typeof :: "json option \<Rightarrow> js_type" where
  "typeof None = Undefined"
| "typeof (Some JNull) = Object"
| "typeof (Some (JBool b)) = Boolean"
| "typeof (Some (JNum n)) = Number"
| "typeof (Some (JString s)) = String"
| "typeof (Some (JArray xs)) = Object"
| "typeof (Some (JObject kvs)) = Object"

text \<open>JavaScript truthiness (\<^verbatim>\<open>!x\<close>, \<^verbatim>\<open>x || y\<close>, \<^verbatim>\<open>x && y\<close>).\<close>

fun truthy :: "json option \<Rightarrow> bool" where
  "truthy None = False"
| "truthy (Some JNull) = False"
| "truthy (Some (JBool b)) = b"
| "truthy (Some (JNum n)) = (n \<noteq> 0)"
| "truthy (Some (JString s)) = (s \<noteq> [])"
| "truthy (Some (JArray xs)) = True"
| "truthy (Some (JObject kvs)) = True"

section \<open>Errors\<close>

text \<open>
  Whatever a \<^verbatim>\<open>throw\<close> can carry: the SDK's \<^verbatim>\<open>ParseError\<close> (message and the
  offending line), any other \<^verbatim>\<open>SDKError\<close> (message and code), a native \<^verbatim>\<open>Error\<close>
  (message), or a value that is not an \<^verbatim>\<open>Error\<close> at all.
\<close>

datatype js_error =
    ParseError string "jstext option"
  | SDKError string string
  | NativeError string
  | ThrownValue json

text \<open>\<^verbatim>\<open>wrapError(error, defaultMessage)\<close>.\<close>

fun wrapError :: "js_error \<Rightarrow> string \<Rightarrow> js_error" where
  "wrapError (ParseError m l) d = ParseError m l"
| "wrapError (SDKError m c) d = SDKError m c"
| "wrapError (NativeError m) d = SDKError (if m \<noteq> [] then m else d) ''UNKNOWN_ERROR''"
| "wrapError (ThrownValue v) d = SDKError d ''UNKNOWN_ERROR''"

text \<open>The \<^verbatim>\<open>TypeError\<close> of reading a property of \<^verbatim>\<open>undefined\<close> or \<^verbatim>\<open>null\<close>.\<close>

definition cannot_read :: "string \<Rightarrow> string \<Rightarrow> js_error" where
  "cannot_read what property =
     NativeError (''Cannot read properties of '' @ what @ '' (reading '' @ [CHR 0x27] @ property
                    @ [CHR 0x27] @ '')'')"

section \<open>Identifier generation\<close>

text \<open>
  The entropy one call may draw on: the string \<^verbatim>\<open>crypto.randomUUID()\<close> returns, the
  clock \<^verbatim>\<open>Date.now()\<close> and the rendering \<^verbatim>\<open>Math.random().toString(36)\<close>.
\<close>

record entropy =
  randomUUID :: string
  now :: nat
  random36 :: string

fun digit_char :: "nat \<Rightarrow> char" where
  "digit_char n = ''0123456789'' ! (n mod 10)"

fun decimal :: "nat \<Rightarrow> string" where
  "decimal n = (if n < 10 then [digit_char n] else decimal (n div 10) @ [digit_char n])"

declare decimal.simps [simp del]

definition generateUuid :: "entropy \<Rightarrow> string" where
  "generateUuid e = randomUUID e"

definition generateSessionId :: "entropy \<Rightarrow> string" where
  "generateSessionId e = ''session_'' @ decimal (now e) @ ''_'' @ take 9 (drop 2 (random36 e))"

section \<open>Transport: structural gate and enrichment\<close>

definition VALID_MESSAGE_TYPES :: "string set" where
  "VALID_MESSAGE_TYPES =
     {''system'', ''user'', ''assistant'', ''result'', ''tool_use'', ''progress'', ''error''}"

definition isValidMessageStructure :: "json \<Rightarrow> bool" where
  "isValidMessageStructure obj =
     (if typeof (Some obj) \<noteq> Object \<or> obj = JNull then False
      else if typeof (get_prop obj ''type'') \<noteq> String then False
      else (case get_prop obj ''type'' of
              Some (JString t) \<Rightarrow> t \<in> VALID_MESSAGE_TYPES
            | _ \<Rightarrow> False))"

text \<open>The fields of \<^verbatim>\<open>SandboxTransport\<close>. The sandbox handle is a number.\<close>

record transport =
  sandbox :: "nat option"
  isConnected :: bool
  currentSessionId :: "string option"
  snapshotId_opt :: "string option"

text \<open>\<^verbatim>\<open>this.currentSessionId || generateSessionId()\<close>.\<close>

definition session_or_fresh :: "string option \<Rightarrow> entropy \<Rightarrow> string" where
  "session_or_fresh cur e =
     (case cur of Some s \<Rightarrow> (if s \<noteq> [] then s else generateSessionId e)
      | None \<Rightarrow> generateSessionId e)"

definition default_message :: "string \<Rightarrow> json" where
  "default_message messageType =
     JObject [(''role'', JString messageType), (''content'', JArray [])]"

definition default_error :: json where
  "default_error =
     JObject [(''code'', JString ''UNKNOWN_ERROR''),
              (''message'', JString ''Unknown error occurred'')]"

text \<open>The three JavaScript selections the enrichers use:
  \<^verbatim>\<open>typeof x === 'string' ? x : d\<close>, \<^verbatim>\<open>x || d\<close> and \<^verbatim>\<open>x ?? d\<close>.\<close>

definition string_or :: "json option \<Rightarrow> json \<Rightarrow> json" where
  "string_or x d = (case x of Some (JString s) \<Rightarrow> JString s | _ \<Rightarrow> d)"

definition or_else :: "json option \<Rightarrow> json \<Rightarrow> json" where
  "or_else x d = (case x of None \<Rightarrow> d | Some v \<Rightarrow> (if truthy (Some v) then v else d))"

definition nullish_or :: "json option \<Rightarrow> json \<Rightarrow> json" where
  "nullish_or x d = (case x of None \<Rightarrow> d | Some JNull \<Rightarrow> d | Some v \<Rightarrow> v)"

text \<open>A non-null object in the sense of \<^verbatim>\<open>typeof\<close> (arrays included).\<close>

definition is_object :: "json option \<Rightarrow> bool" where
  "is_object x = (typeof x = Object \<and> x \<noteq> Some JNull)"

text \<open>The object literal \<^verbatim>\<open>{...msg, uuid: .., session_id: .., parent_tool_use_id: ..}\<close>
  of \<^verbatim>\<open>SandboxTransport.enrichMessage\<close>.\<close>

definition spread_identity :: "transport \<Rightarrow> entropy \<Rightarrow> (string \<times> json) list \<Rightarrow> (string \<times> json) list" where
  "spread_identity this e msg =
     set_prop ''parent_tool_use_id'' (string_or (map_of msg ''parent_tool_use_id'') JNull)
    (set_prop ''session_id''
       (string_or (map_of msg ''session_id'')
          (JString (session_or_fresh (currentSessionId this) e)))
    (set_prop ''uuid'' (string_or (map_of msg ''uuid'') (JString (generateUuid e)))
     msg))"

text \<open>The \<^verbatim>\<open>switch (messageType)\<close> of \<^verbatim>\<open>enrichMessage\<close>.\<close>

definition type_defaults :: "string \<Rightarrow> (string \<times> json) list \<Rightarrow> (string \<times> json) list" where
  "type_defaults messageType enriched =
     (if messageType = ''assistant'' \<or> messageType = ''user'' then
        (if \<not> truthy (map_of enriched ''message'') \<or> typeof (map_of enriched ''message'') \<noteq> Object
         then set_prop ''message'' (default_message messageType) enriched
         else enriched)
      else if messageType = ''result'' then
        (if typeof (map_of enriched ''subtype'') \<noteq> String
         then set_prop ''subtype'' (JString ''success'') enriched
         else enriched)
      else if messageType = ''error'' then
        (if \<not> truthy (map_of enriched ''error'') \<or> typeof (map_of enriched ''error'') \<noteq> Object
         then set_prop ''error'' default_error enriched
         else enriched)
      else enriched)"

text \<open>The field the \<^verbatim>\<open>switch\<close> may fill for a message type.\<close>

definition defaulted_field :: "string \<Rightarrow> string option" where
  "defaulted_field t =
     (if t = ''assistant'' \<or> t = ''user'' then Some ''message''
      else if t = ''result'' then Some ''subtype''
      else if t = ''error'' then Some ''error''
      else None)"

text \<open>
  \<^verbatim>\<open>SandboxTransport.enrichMessage\<close>. \<open>stringify\<close> is \<^verbatim>\<open>JSON.stringify\<close>; \<open>Inl\<close> is
  the thrown error. The argument ranges over the values \<^verbatim>\<open>JSON.parse\<close> can return.
\<close>

definition structure_error :: "jstext \<Rightarrow> js_error" where
  "structure_error serialized =
     ParseError ''Invalid message structure: missing or invalid 'type' field'' (Some serialized)"

definition enrichMessage ::
  "(json \<Rightarrow> jstext) \<Rightarrow> transport \<Rightarrow> entropy \<Rightarrow> json \<Rightarrow> js_error + json" where
  "enrichMessage stringify this e rawMessage =
     (if \<not> isValidMessageStructure rawMessage then Inl (structure_error (stringify rawMessage))
      else
        (case rawMessage of
           JObject msg \<Rightarrow>
             (let enriched = spread_identity this e msg;
                  messageType = (case map_of enriched ''type'' of Some (JString t) \<Rightarrow> t | _ \<Rightarrow> [])
              in Inr (JObject (type_defaults messageType enriched)))
         | _ \<Rightarrow> Inl (structure_error (stringify rawMessage))))"

section \<open>Orchestrator: defensive re-enrichment\<close>

text \<open>\<^verbatim>\<open>QueryImpl.enrichMessage\<close> on the properties of an \<^verbatim>\<open>SDKMessage\<close> object;
  \<open>sessionId\<close> is \<^verbatim>\<open>this._sessionId\<close>.\<close>

definition QueryImpl_enrichMessage ::
  "string \<Rightarrow> entropy \<Rightarrow> (string \<times> json) list \<Rightarrow> (string \<times> json) list" where
  "QueryImpl_enrichMessage sessionId e message =
     (if truthy (map_of message ''uuid'') \<and> truthy (map_of message ''session_id'') then message
      else
        set_prop ''parent_tool_use_id'' (nullish_or (map_of message ''parent_tool_use_id'') JNull)
       (set_prop ''session_id'' (or_else (map_of message ''session_id'') (JString sessionId))
       (set_prop ''uuid'' (or_else (map_of message ''uuid'') (JString (generateUuid e)))
        message)))"

section \<open>Tool execution\<close>

text \<open>\<^verbatim>\<open>Array.prototype.join\<close> on strings.\<close>

fun join :: "'a list \<Rightarrow> 'a list list \<Rightarrow> 'a list" where
  "join sep [] = []"
| "join sep [x] = x"
| "join sep (x # y # ys) = x @ sep @ join sep (y # ys)"

text \<open>A Zod issue: the path to the offending field (property names and array indices)
  and the reason.\<close>

datatype path_segment = Key string | Index nat

record zod_issue =
  issue_path :: "path_segment list"
  issue_message :: string

fun segment_text :: "path_segment \<Rightarrow> string" where
  "segment_text (Key k) = k"
| "segment_text (Index i) = decimal i"

text \<open>The template \<^verbatim>\<open>`${e.path.join('.')}: ${e.message}`\<close>.\<close>

definition issue_text :: "zod_issue \<Rightarrow> string" where
  "issue_text e = join ''.'' (map segment_text (issue_path e)) @ '': '' @ issue_message e"

datatype tool_content =
    TextContent string
  | ImageContent string string
  | ResourceContent string "string option" "string option" "string option"

record ToolResult =
  content :: "tool_content list"
  isError :: "bool option"

text \<open>
  What \<^verbatim>\<open>safeParse\<close> returns. A failure carries a \<^verbatim>\<open>ZodError\<close>: its issues are under
  \<^verbatim>\<open>issues\<close>; only Zod 3 also has them under \<^verbatim>\<open>errors\<close>, which is \<^verbatim>\<open>undefined\<close> (\<open>None\<close>)
  on a Zod 4 error.
\<close>

record ZodError =
  errors :: "zod_issue list option"
  issues :: "zod_issue list"

datatype SafeParseResult = ParseSuccess json | ParseFailure ZodError

text \<open>
  A tool definition. \<open>schema\<close> is \<^verbatim>\<open>tool.schema.safeParse\<close>, which returns a result or
  throws (a refinement that throws, an asynchronous refinement in a synchronous parse).
  \<open>handler\<close> returns a result or throws.
\<close>

record ToolDefinition =
  name :: string
  description :: string
  schema :: "json \<Rightarrow> js_error + SafeParseResult"
  handler :: "json \<Rightarrow> js_error + ToolResult"

text \<open>\<^verbatim>\<open>error instanceof Error ? error.message : fallback\<close>.\<close>

fun message_or :: "js_error \<Rightarrow> string \<Rightarrow> string" where
  "message_or (ParseError m l) d = m"
| "message_or (SDKError m c) d = m"
| "message_or (NativeError m) d = m"
| "message_or (ThrownValue v) d = d"

text \<open>
  \<^verbatim>\<open>executeTool\<close>; \<open>Inl\<close> is a rejected promise. \<^verbatim>\<open>safeParse\<close> and
  \<^verbatim>\<open>parseResult.error.errors.map\<close> are evaluated before the \<^verbatim>\<open>try\<close>, so what they throw
  rejects the promise; only the handler runs inside the \<^verbatim>\<open>try\<close>.
\<close>

definition executeTool :: "ToolDefinition \<Rightarrow> json \<Rightarrow> js_error + ToolResult" where
  "executeTool tool input =
     (case schema tool input of
        Inl thrown_error \<Rightarrow> Inl thrown_error
      | Inr (ParseFailure parse_error) \<Rightarrow>
          (case errors parse_error of
             None \<Rightarrow> Inl (cannot_read ''undefined'' ''map'')
           | Some es \<Rightarrow>
               Inr \<lparr>content = [TextContent (''Validation error: '' @ join '', '' (map issue_text es))],
                    isError = Some True\<rparr>)
      | Inr (ParseSuccess data) \<Rightarrow>
          (case handler tool data of
             Inr result \<Rightarrow> Inr result
           | Inl error \<Rightarrow>
               Inr \<lparr>content = [TextContent (''Tool execution error: '' @ message_or error ''Unknown error'')],
                    isError = Some True\<rparr>))"

section \<open>NDJSON parser\<close>

definition newline :: code_unit where
  "newline = 0x0A"

text \<open>The code units \<^verbatim>\<open>String.prototype.trim\<close> strips: white space and line
  terminators.\<close>

definition is_space :: "code_unit \<Rightarrow> bool" where
  "is_space c \<longleftrightarrow>
     c \<in> {0x09, 0x0A, 0x0B, 0x0C, 0x0D, 0x20, 0xA0, 0x1680, 0x2028, 0x2029, 0x202F, 0x205F,
          0x3000, 0xFEFF} \<or> (0x2000 \<le> c \<and> c \<le> 0x200A)"

definition trim :: "jstext \<Rightarrow> jstext" where
  "trim s = rev (dropWhile is_space (rev (dropWhile is_space s)))"

text \<open>\<^verbatim>\<open>s.split('\n')\<close>: the first line and the lines after it; the result is never
  empty.\<close>

fun split_first :: "jstext \<Rightarrow> jstext \<times> jstext list" where
  "split_first [] = ([], [])"
| "split_first (c # cs) =
     (let (l, ls) = split_first cs
      in if c = newline then ([], l # ls) else (c # l, ls))"

definition split_newline :: "jstext \<Rightarrow> jstext list" where
  "split_newline s = (let (l, ls) = split_first s in l # ls)"

text \<open>\<^verbatim>\<open>lines.pop()\<close>: the removed last element (\<^verbatim>\<open>undefined\<close> on an empty array) and
  the array that remains.\<close>

definition pop :: "'a list \<Rightarrow> 'a option \<times> 'a list" where
  "pop xs = (if xs = [] then (None, []) else (Some (last xs), butlast xs))"

text \<open>\<^verbatim>\<open>'type' in parsed\<close> on a non-null object.\<close>

fun has_type_key :: "json \<Rightarrow> bool" where
  "has_type_key (JObject kvs) = (''type'' \<in> fst ` set kvs)"
| "has_type_key v = False"

text \<open>
  \<^verbatim>\<open>parseLine\<close>. \<open>json_parse\<close> is \<^verbatim>\<open>JSON.parse\<close>: the parsed value, or the message
  of the \<^verbatim>\<open>SyntaxError\<close> it throws. The result is the thrown \<^verbatim>\<open>ParseError\<close>, \<^verbatim>\<open>null\<close>
  (\<open>None\<close>) or the message.
\<close>

definition parseLine :: "(jstext \<Rightarrow> string + json) \<Rightarrow> jstext \<Rightarrow> js_error + json option" where
  "parseLine json_parse line =
     (let trimmed = trim line in
      if trimmed = [] then Inr None
      else
        (case json_parse trimmed of
           Inr parsed \<Rightarrow>
             (if typeof (Some parsed) \<noteq> Object \<or> parsed = JNull \<or> \<not> has_type_key parsed
              then Inl (ParseError ''Invalid message format: missing type field'' (Some trimmed))
              else Inr (Some parsed))
         | Inl syntax_error \<Rightarrow>
             Inl (ParseError (''Failed to parse JSON: '' @ syntax_error) (Some trimmed))))"

text \<open>
  What a generator delivers: the values it yielded, in order, and the error it threw,
  if it did. The \<^verbatim>\<open>for (const line of lines)\<close> loop of the parsers:
\<close>

fun parse_lines :: "(jstext \<Rightarrow> string + json) \<Rightarrow> jstext list \<Rightarrow> json list \<times> js_error option" where
  "parse_lines json_parse [] = ([], None)"
| "parse_lines json_parse (line # lines) =
     (case parseLine json_parse line of
        Inl err \<Rightarrow> ([], Some err)
      | Inr None \<Rightarrow> parse_lines json_parse lines
      | Inr (Some message) \<Rightarrow>
          (let (ms, r) = parse_lines json_parse lines in (message # ms, r)))"

text \<open>\<^verbatim>\<open>parseNDJSONString\<close>.\<close>

definition parseNDJSONString :: "(jstext \<Rightarrow> string + json) \<Rightarrow> jstext \<Rightarrow> json list \<times> js_error option" where
  "parseNDJSONString json_parse input = parse_lines json_parse (split_newline input)"

text \<open>
  \<^verbatim>\<open>decoder.decode(value, {stream: true})\<close>. A \<^verbatim>\<open>TextDecoder\<close> consumes its input byte
  by byte, keeping its state between calls; \<open>step\<close> is what it does with one byte (the
  code units it emits and its next state).
\<close>

fun decode :: "('d \<Rightarrow> byte \<Rightarrow> jstext \<times> 'd) \<Rightarrow> 'd \<Rightarrow> byte list \<Rightarrow> jstext \<times> 'd" where
  "decode step d [] = ([], d)"
| "decode step d (b # bs) =
     (let (t, d') = step d b; (ts, d'') = decode step d' bs in (t @ ts, d''))"

text \<open>
  The \<^verbatim>\<open>while (true)\<close> loop of \<^verbatim>\<open>parseNDJSONStream\<close> over what \<^verbatim>\<open>reader.read()\<close> returns:
  the chunks in turn, then \<^verbatim>\<open>done\<close>.
\<close>

fun stream_loop ::
  "(jstext \<Rightarrow> string + json) \<Rightarrow> ('d \<Rightarrow> byte \<Rightarrow> jstext \<times> 'd) \<Rightarrow> 'd \<Rightarrow> jstext \<Rightarrow> byte list list
     \<Rightarrow> json list \<times> js_error option" where
  "stream_loop json_parse step d buffer [] =
     (if trim buffer \<noteq> [] then
        (case parseLine json_parse buffer of
           Inl err \<Rightarrow> ([], Some err)
         | Inr None \<Rightarrow> ([], None)
         | Inr (Some message) \<Rightarrow> ([message], None))
      else ([], None))"
| "stream_loop json_parse step d buffer (value # rest) =
     (let (decoded, d') = decode step d value;
          buffer1 = buffer @ decoded;
          lines = split_newline buffer1;
          (popped, lines') = pop lines;
          buffer2 = (case popped of None \<Rightarrow> [] | Some l \<Rightarrow> l)
      in case parse_lines json_parse lines' of
           (ms, Some err) \<Rightarrow> (ms, Some err)
         | (ms, None) \<Rightarrow>
             (let (ms', r) = stream_loop json_parse step d' buffer2 rest in (ms @ ms', r)))"

text \<open>\<^verbatim>\<open>parseNDJSONStream\<close>; \<open>d0\<close> is the state of a new \<^verbatim>\<open>TextDecoder\<close>.\<close>

definition parseNDJSONStream ::
  "(jstext \<Rightarrow> string + json) \<Rightarrow> ('d \<Rightarrow> byte \<Rightarrow> jstext \<times> 'd) \<Rightarrow> 'd \<Rightarrow> byte list list
     \<Rightarrow> json list \<times> js_error option" where
  "parseNDJSONStream json_parse step d0 chunks = stream_loop json_parse step d0 [] chunks"

text \<open>Lines joined by newlines: the wire text of a sequence of lines.\<close>

definition wire_text :: "jstext list \<Rightarrow> jstext" where
  "wire_text lines = join [newline] lines"

text \<open>The messages of the lines that are not blank.\<close>

definition line_messages :: "(jstext \<Rightarrow> string + json) \<Rightarrow> jstext list \<Rightarrow> json list" where
  "line_messages json_parse lines =
     List.map_filter (\<lambda>l. case parseLine json_parse l of Inr (Some m) \<Rightarrow> Some m | _ \<Rightarrow> None) lines"

section \<open>Transport session\<close>

text \<open>
  What is done to the sandbox service, in order: a sandbox is created, \<^verbatim>\<open>stop()\<close> is
  called on it, \<^verbatim>\<open>snapshot()\<close> is called on it (and whether it succeeded; a successful
  snapshot stops the sandbox).
\<close>

datatype sandbox_event = Created nat | StopCalled nat | SnapshotCalled nat bool

record SnapshotResult =
  snapshotId :: string
  sessionId :: string
  createdAt :: nat
  expiresAt :: nat
  sizeBytes :: nat
  parentSnapshotId :: "string option"

text \<open>
  The world outside the SDK, as far as one query run meets it: whether a credential is
  available, what \<^verbatim>\<open>Sandbox.create\<close>, the CLI installation and the setup phase do, what
  \<^verbatim>\<open>startSession\<close> streams in a given turn for a given prompt (the messages it yields
  and the error it ends with, if any), when the consumer calls \<^verbatim>\<open>interrupt()\<close> (on
  holding the \<open>n\<close>-th yielded message; \<open>0\<close> is before the first), what
  \<^verbatim>\<open>snapshot()\<close> does, the clock, and the entropy of the \<open>n\<close>-th identifier. The consumer
  pulls the generator to its end and does not call \<^verbatim>\<open>createSnapshot()\<close> itself.
\<close>

record world =
  has_credentials :: bool
  create_outcome :: "js_error + nat"
  install_outcome :: "string option"
  setup_outcome :: "js_error option"
  session_outcome :: "nat \<Rightarrow> string \<Rightarrow> (string \<times> json) list list \<times> js_error option"
  interrupt_after :: "nat option"
  snapshot_outcome :: "js_error + string"
  time_start :: nat
  time_end :: nat
  entropy_at :: "nat \<Rightarrow> entropy"

text \<open>\<^verbatim>\<open>SandboxTransport.connect\<close>: the transport and the service log afterwards, and the
  error thrown, if any.\<close>

definition connect ::
  "world \<Rightarrow> string option \<Rightarrow> transport \<times> sandbox_event list
     \<Rightarrow> (transport \<times> sandbox_event list) \<times> js_error option" where
  "connect w snap ts =
     (let this = (fst ts)\<lparr>snapshotId_opt := snap\<rparr>; events = snd ts in
      if \<not> has_credentials w then
        ((this, events),
         Some (SDKError ''Authentication required: set ANTHROPIC_API_KEY or CLAUDE_CODE_OAUTH_TOKEN''
                 ''AUTH_ERROR''))
      else
        (case create_outcome w of
           Inl err \<Rightarrow> ((this, events), Some (wrapError err ''Failed to create sandbox''))
         | Inr h \<Rightarrow>
             (let this1 = this\<lparr>sandbox := Some h\<rparr>; events1 = events @ [Created h];
                  from_snapshot = (case snap of Some s \<Rightarrow> s \<noteq> [] | None \<Rightarrow> False)
              in case (if from_snapshot then None else install_outcome w) of
                   Some m \<Rightarrow>
                     ((this1, events1),
                      Some (wrapError (SDKError (''Failed to install Claude CLI: '' @ m) ''SANDBOX_ERROR'')
                              ''Failed to create sandbox''))
                 | None \<Rightarrow> ((this1\<lparr>isConnected := True\<rparr>, events1), None))))"

text \<open>\<^verbatim>\<open>SandboxTransport.close\<close>; an error thrown by \<^verbatim>\<open>stop()\<close> is ignored.\<close>

definition close :: "world \<Rightarrow> transport \<times> sandbox_event list \<Rightarrow> transport \<times> sandbox_event list" where
  "close w ts =
     (let this = fst ts; events = snd ts in
      case sandbox this of
        Some h \<Rightarrow>
          (this\<lparr>sandbox := None, isConnected := False, currentSessionId := None\<rparr>,
           events @ [StopCalled h])
      | None \<Rightarrow> (this\<lparr>isConnected := False, currentSessionId := None\<rparr>, events))"

text \<open>\<^verbatim>\<open>SandboxTransport.createSnapshotWithInfo\<close>.\<close>

definition createSnapshotWithInfo ::
  "world \<Rightarrow> transport \<times> sandbox_event list
     \<Rightarrow> (transport \<times> sandbox_event list) \<times> (js_error + SnapshotResult)" where
  "createSnapshotWithInfo w ts =
     (let this = fst ts; events = snd ts in
      case sandbox this of
        None \<Rightarrow> ((this, events), Inl (SDKError ''Sandbox not connected'' ''SANDBOX_ERROR''))
      | Some h \<Rightarrow>
          (case snapshot_outcome w of
             Inl err \<Rightarrow>
               ((this, events @ [SnapshotCalled h False]),
                Inl (SDKError (''Failed to create snapshot: '' @ message_or err ''unknown error'')
                       ''SANDBOX_ERROR''))
           | Inr sid \<Rightarrow>
               ((this\<lparr>isConnected := False, sandbox := None\<rparr>, events @ [SnapshotCalled h True]),
                Inr \<lparr>snapshotId = sid,
                     sessionId = (case currentSessionId this of Some s \<Rightarrow> s | None \<Rightarrow> []),
                     createdAt = time_end w,
                     expiresAt = time_end w + 7 * 24 * 60 * 60 * 1000,
                     sizeBytes = 0,
                     parentSnapshotId = snapshotId_opt this\<rparr>)))"

section \<open>Query orchestrator\<close>

datatype SnapshotMode = Never | OnSuccess | Always | OnDemand

record SnapshotOptions =
  mode :: SnapshotMode
  metadata :: "(string \<times> string) list option"
  onSnapshot :: "(SnapshotResult \<Rightarrow> js_error option) option"

record QueryResultInfo =
  info_success :: bool
  info_error :: "js_error option"
  durationMs :: int
  messagesCount :: nat

text \<open>A hook returns normally (\<open>None\<close>) or throws.\<close>

record SandboxLifecycleHooks =
  onTeardown :: "(QueryResultInfo \<Rightarrow> js_error option) option"

record Options =
  maxTurns :: "int option"
  tools :: "ToolDefinition list option"
  mcpServers :: "string list option"

record QueryArgs =
  prompt :: string
  options :: Options
  arg_snapshotId :: "string option"
  hooks :: SandboxLifecycleHooks
  snapshotEnabled :: "bool option"
  snapshot :: "SnapshotOptions option"

text \<open>The fields of \<^verbatim>\<open>QueryImpl\<close> a run changes, the messages the consumer has received,
  the service log and what \<^verbatim>\<open>console.error\<close> was given.\<close>

record query_state =
  transport_of :: transport
  isInterrupted :: bool
  messages :: "(string \<times> json) list list"
  yielded :: "(string \<times> json) list list"
  snapshotInfo :: "SnapshotResult option"
  sandbox_log :: "sandbox_event list"
  console_errors :: "js_error list"

text \<open>The constructor's defaults: \<^verbatim>\<open>queryArgs.snapshotEnabled ?? true\<close>,
  \<^verbatim>\<open>options.maxTurns ?? 10\<close>, \<^verbatim>\<open>options.tools ?? []\<close>.\<close>

definition snapshotEnabled_of :: "QueryArgs \<Rightarrow> bool" where
  "snapshotEnabled_of args = (case snapshotEnabled args of None \<Rightarrow> True | Some b \<Rightarrow> b)"

definition maxTurns_of :: "QueryArgs \<Rightarrow> int" where
  "maxTurns_of args = (case maxTurns (options args) of None \<Rightarrow> 10 | Some n \<Rightarrow> n)"

definition tools_of :: "QueryArgs \<Rightarrow> ToolDefinition list" where
  "tools_of args = (case tools (options args) of None \<Rightarrow> [] | Some ts \<Rightarrow> ts)"

definition initial_state :: "world \<Rightarrow> query_state" where
  "initial_state w =
     \<lparr>transport_of = \<lparr>sandbox = None, isConnected = False, currentSessionId = None,
                       snapshotId_opt = None\<rparr>,
      isInterrupted = (interrupt_after w = Some 0),
      messages = [], yielded = [], snapshotInfo = None, sandbox_log = [], console_errors = []\<rparr>"

text \<open>\<^verbatim>\<open>yield message\<close>: the consumer receives the message and may call
  \<^verbatim>\<open>interrupt()\<close> before it asks for the next.\<close>

definition emit :: "world \<Rightarrow> (string \<times> json) list \<Rightarrow> query_state \<Rightarrow> query_state" where
  "emit w message st =
     st\<lparr>yielded := yielded st @ [message],
        isInterrupted := (isInterrupted st \<or> interrupt_after w = Some (Suc (length (yielded st))))\<rparr>"

text \<open>The \<^verbatim>\<open>for await\<close> loop over the transport's stream.\<close>

fun stream_messages ::
  "world \<Rightarrow> string \<Rightarrow> (string \<times> json) list list \<Rightarrow> query_state \<Rightarrow> query_state" where
  "stream_messages w sid [] st = st"
| "stream_messages w sid (rawMessage # rest) st =
     (let message = QueryImpl_enrichMessage sid (entropy_at w (length (yielded st))) rawMessage;
          st1 = emit w message (st\<lparr>messages := messages st @ [message]\<rparr>)
      in if isInterrupted st1 then st1 else stream_messages w sid rest st1)"

text \<open>\<^verbatim>\<open>startSession\<close> up to its first \<^verbatim>\<open>yield\<close>, and what it then streams.\<close>

definition startSession ::
  "world \<Rightarrow> nat \<Rightarrow> string \<Rightarrow> query_state
     \<Rightarrow> query_state \<times> (string \<times> json) list list \<times> js_error option" where
  "startSession w n fullPrompt st =
     (if sandbox (transport_of st) = None \<or> \<not> isConnected (transport_of st) then
        (st, [], Some (SDKError ''Sandbox not connected. Call connect() first.'' ''SANDBOX_ERROR''))
      else if \<not> has_credentials w then
        (st, [],
         Some (SDKError ''Authentication required: set ANTHROPIC_API_KEY or CLAUDE_CODE_OAUTH_TOKEN''
                 ''AUTH_ERROR''))
      else
        (st\<lparr>transport_of := (transport_of st)
               \<lparr>currentSessionId := Some (generateSessionId (entropy_at w (length (yielded st))))\<rparr>\<rparr>,
         fst (session_outcome w n fullPrompt), snd (session_outcome w n fullPrompt)))"

subsection \<open>Assistant text and tool requests\<close>

definition isAssistantMessage :: "(string \<times> json) list \<Rightarrow> bool" where
  "isAssistantMessage msg = (map_of msg ''type'' = Some (JString ''assistant''))"

text \<open>
  Three functions of the runtime are parameters: JavaScript's conversion of a value to
  a string (\<^verbatim>\<open>Array.prototype.join\<close> applies it to an element that is not a string),
  \<^verbatim>\<open>JSON.stringify\<close> on a content block, and \<^verbatim>\<open>parseToolRequestsFromText\<close>, a
  regular-expression scan of the assistant text for tool requests.
\<close>

record tool_request =
  req_tool :: string
  req_input :: json

record runtime =
  js_to_string :: "json \<Rightarrow> string"
  stringify_content :: "tool_content \<Rightarrow> string"
  parseToolRequestsFromText :: "string \<Rightarrow> tool_request list"

text \<open>The property read \<^verbatim>\<open>x.k\<close>: it throws when \<open>x\<close> is \<^verbatim>\<open>undefined\<close> or \<^verbatim>\<open>null\<close>.\<close>

fun member :: "json option \<Rightarrow> string \<Rightarrow> js_error + json option" where
  "member None k = Inl (cannot_read ''undefined'' k)"
| "member (Some JNull) k = Inl (cannot_read ''null'' k)"
| "member (Some v) k = Inr (get_prop v k)"

text \<open>\<^verbatim>\<open>.filter((block) => block.type === 'text')\<close>.\<close>

fun text_blocks :: "json list \<Rightarrow> js_error + json list" where
  "text_blocks [] = Inr []"
| "text_blocks (block # blocks) =
     (case member (Some block) ''type'' of
        Inl err \<Rightarrow> Inl err
      | Inr block_type \<Rightarrow>
          (case text_blocks blocks of
             Inl err \<Rightarrow> Inl err
           | Inr bs \<Rightarrow> Inr (if block_type = Some (JString ''text'') then block # bs else bs)))"

text \<open>One element of \<^verbatim>\<open>.map((block) => block.text).join('')\<close>.\<close>

definition block_text :: "runtime \<Rightarrow> json \<Rightarrow> string" where
  "block_text rt block =
     (case get_prop block ''text'' of
        None \<Rightarrow> [] | Some JNull \<Rightarrow> [] | Some (JString s) \<Rightarrow> s | Some v \<Rightarrow> js_to_string rt v)"

text \<open>
  \<^verbatim>\<open>extractText\<close>, that is \<^verbatim>\<open>message.message.content.filter(...).map(...).join('')\<close>:
  reading \<^verbatim>\<open>content\<close> of a missing or \<^verbatim>\<open>null\<close> \<^verbatim>\<open>message\<close> throws, so does reading
  \<^verbatim>\<open>filter\<close> of a missing or \<^verbatim>\<open>null\<close> \<^verbatim>\<open>content\<close>, and a \<^verbatim>\<open>content\<close> that is not an
  array has no \<^verbatim>\<open>filter\<close> to call.
\<close>

definition extractText :: "runtime \<Rightarrow> (string \<times> json) list \<Rightarrow> js_error + string" where
  "extractText rt message =
     (case member (map_of message ''message'') ''content'' of
        Inl err \<Rightarrow> Inl err
      | Inr (Some (JArray blocks)) \<Rightarrow>
          (case text_blocks blocks of
             Inl err \<Rightarrow> Inl err
           | Inr bs \<Rightarrow> Inr (concat (map (block_text rt) bs)))
      | Inr content_value \<Rightarrow>
          (case member content_value ''filter'' of
             Inl err \<Rightarrow> Inl err
           | Inr no_function \<Rightarrow>
               Inl (NativeError ''message.message.content.filter is not a function'')))"

fun extract_all :: "runtime \<Rightarrow> (string \<times> json) list list \<Rightarrow> js_error + string" where
  "extract_all rt [] = Inr []"
| "extract_all rt (m # ms) =
     (case extractText rt m of
        Inl err \<Rightarrow> Inl err
      | Inr s \<Rightarrow> (case extract_all rt ms of Inl err \<Rightarrow> Inl err | Inr r \<Rightarrow> Inr (s @ r)))"

text \<open>\<^verbatim>\<open>this.messages.slice(-10).filter(isAssistantMessage).map(extractText).join('')\<close>.\<close>

definition assistantText :: "runtime \<Rightarrow> (string \<times> json) list list \<Rightarrow> js_error + string" where
  "assistantText rt msgs =
     extract_all rt (filter isAssistantMessage (drop (length msgs - 10) msgs))"

text \<open>\<^verbatim>\<open>toolMap\<close>: a later tool of the same name replaces an earlier one.\<close>

definition toolMap :: "ToolDefinition list \<Rightarrow> string \<Rightarrow> ToolDefinition option" where
  "toolMap ts = map_of (rev (map (\<lambda>t. (name t, t)) ts))"

definition content_text :: "runtime \<Rightarrow> tool_content \<Rightarrow> string" where
  "content_text rt c = (case c of TextContent t \<Rightarrow> t | _ \<Rightarrow> stringify_content rt c)"

text \<open>The \<^verbatim>\<open>for (const toolReq of toolRequests)\<close> loop.\<close>

fun run_tools :: "runtime \<Rightarrow> ToolDefinition list \<Rightarrow> tool_request list \<Rightarrow> string list" where
  "run_tools rt ts [] = []"
| "run_tools rt ts (toolReq # reqs) =
     (case toolMap ts (req_tool toolReq) of
        None \<Rightarrow> ''Error: Unknown tool '' @ [CHR 0x22] @ req_tool toolReq @ [CHR 0x22]
      | Some toolDef \<Rightarrow>
          (case executeTool toolDef (req_input toolReq) of
             Inr result \<Rightarrow>
               ''Tool '' @ [CHR 0x22] @ req_tool toolReq @ [CHR 0x22] @ '' result:'' @ [CHR 0x0A]
                 @ join [CHR 0x0A] (map (content_text rt) (content result))
           | Inl err \<Rightarrow>
               ''Tool '' @ [CHR 0x22] @ req_tool toolReq @ [CHR 0x22] @ '' error: ''
                 @ message_or err ''Unknown error''))
     # run_tools rt ts reqs"

definition buildConversationPrompt :: "(string \<times> string) list \<Rightarrow> string \<Rightarrow> string" where
  "buildConversationPrompt history newMessage =
     ''Previous conversation:'' @ [CHR 0x0A]
       @ join [CHR 0x0A, CHR 0x0A]
           (map (\<lambda>(role, c). (if role = ''user'' then ''Human'' else ''Assistant'') @ '': '' @ c) history)
       @ [CHR 0x0A, CHR 0x0A] @ ''Human: '' @ newMessage"

subsection \<open>The turn loop\<close>

text \<open>How one pass through the loop body ends: with \<^verbatim>\<open>break\<close>, with a thrown error, or
  at the bottom of the body with the history for the next turn.\<close>

datatype turn_end = Break | Throw js_error | Next "(string \<times> string) list"

definition continuation_prompt :: string where
  "continuation_prompt =
     ''Please continue based on the tool results above. Provide the final answer to the user.''"

text \<open>The body of the \<^verbatim>\<open>while\<close> loop of \<^verbatim>\<open>run\<close>, after \<^verbatim>\<open>turn++\<close>.\<close>

definition turn_body ::
  "runtime \<Rightarrow> QueryArgs \<Rightarrow> world \<Rightarrow> string \<Rightarrow> nat \<Rightarrow> (string \<times> string) list \<Rightarrow> string
     \<Rightarrow> query_state \<Rightarrow> query_state \<times> turn_end" where
  "turn_body rt args w sid turn history currentPrompt st =
     (let fullPrompt = (if history \<noteq> [] then buildConversationPrompt history currentPrompt
                        else currentPrompt);
          (st1, stream, failure) = startSession w turn fullPrompt st;
          st2 = stream_messages w sid stream st1
      in if isInterrupted st2 then (st2, Break)
         else
           (case failure of
              Some err \<Rightarrow> (st2, Throw err)
            | None \<Rightarrow>
                (case assistantText rt (messages st2) of
                   Inl err \<Rightarrow> (st2, Throw err)
                 | Inr txt \<Rightarrow>
                     (let toolRequests = parseToolRequestsFromText rt txt in
                      if toolRequests = [] \<or> tools_of args = [] then (st2, Break)
                      else
                        (let toolResults = run_tools rt (tools_of args) toolRequests
                         in (st2,
                             Next (history
                                   @ (if txt \<noteq> [] then [(''assistant'', txt)] else [])
                                   @ [(''user'', ''Tool results:'' @ [CHR 0x0A]
                                         @ join [CHR 0x0A, CHR 0x0A] toolResults)])))))))"

text \<open>
  The \<^verbatim>\<open>while (turn < maxTurns && !this.isInterrupted)\<close> loop of \<^verbatim>\<open>run\<close>: the state
  afterwards, the final value of \<^verbatim>\<open>turn\<close> (the number of turns started) and the error
  that left the loop, if one did. \<^verbatim>\<open>maxTurns\<close> is an integer here.
\<close>

function turn_loop ::
  "runtime \<Rightarrow> QueryArgs \<Rightarrow> world \<Rightarrow> string \<Rightarrow> nat \<Rightarrow> (string \<times> string) list \<Rightarrow> string
     \<Rightarrow> query_state \<Rightarrow> query_state \<times> nat \<times> js_error option" where
  "turn_loop rt args w sid turn history currentPrompt st =
     (if int turn < maxTurns_of args \<and> \<not> isInterrupted st then
        (case turn_body rt args w sid (Suc turn) history currentPrompt st of
           (st2, Break) \<Rightarrow> (st2, Suc turn, None)
         | (st2, Throw err) \<Rightarrow> (st2, Suc turn, Some err)
         | (st2, Next history1) \<Rightarrow>
             turn_loop rt args w sid (Suc turn) history1 continuation_prompt st2)
      else (st, turn, None))"
  by pat_completeness auto
termination
  by (relation "measure (\<lambda>(rt, args, w, sid, turn, history, currentPrompt, st).
                          nat (maxTurns_of args - int turn))") auto

declare turn_loop.simps [simp del]

subsection \<open>Teardown\<close>

definition isResultMessage :: "(string \<times> json) list \<Rightarrow> bool" where
  "isResultMessage msg = (map_of msg ''type'' = Some (JString ''result''))"

text \<open>The \<^verbatim>\<open>SnapshotResult\<close> object as a value; \<^verbatim>\<open>parentSnapshotId\<close> is \<^verbatim>\<open>undefined\<close> unless
  the sandbox was created from a snapshot.\<close>

definition snapshot_json :: "SnapshotResult \<Rightarrow> json" where
  "snapshot_json info =
     JObject ([(''snapshotId'', JString (snapshotId info)),
               (''sessionId'', JString (sessionId info)),
               (''createdAt'', JNum (of_nat (createdAt info))),
               (''expiresAt'', JNum (of_nat (expiresAt info))),
               (''sizeBytes'', JNum (of_nat (sizeBytes info)))]
              @ (case parentSnapshotId info of
                   Some parent \<Rightarrow> [(''parentSnapshotId'', JString parent)]
                 | None \<Rightarrow> []))"

fun update_first_result ::
  "SnapshotResult \<Rightarrow> (string \<times> json) list list \<Rightarrow> (string \<times> json) list list" where
  "update_first_result info [] = []"
| "update_first_result info (msg # rest) =
     (if isResultMessage msg
      then set_prop ''snapshotInfo'' (snapshot_json info)
             (set_prop ''snapshotId'' (JString (snapshotId info)) msg) # rest
      else msg # update_first_result info rest)"

text \<open>\<^verbatim>\<open>updateResultMessageWithSnapshot\<close>: the last result message of the log.\<close>

definition updateResultMessageWithSnapshot ::
  "SnapshotResult \<Rightarrow> (string \<times> json) list list \<Rightarrow> (string \<times> json) list list" where
  "updateResultMessageWithSnapshot info msgs = rev (update_first_result info (rev msgs))"

text \<open>\<^verbatim>\<open>handleSnapshot\<close>.\<close>

definition handleSnapshot :: "QueryArgs \<Rightarrow> world \<Rightarrow> bool \<Rightarrow> query_state \<Rightarrow> query_state" where
  "handleSnapshot args w success st =
     (if \<not> isConnected (transport_of st) then st
      else
        (let shouldSnapshot =
               (case snapshot args of
                  Some so \<Rightarrow> mode so = Always \<or> (mode so = OnSuccess \<and> success)
                | None \<Rightarrow> (if snapshotEnabled_of args then success else False))
         in if shouldSnapshot then
              (case createSnapshotWithInfo w (transport_of st, sandbox_log st) of
                 (ts, Inl snapshotError) \<Rightarrow>
                   st\<lparr>transport_of := fst ts, sandbox_log := snd ts,
                      console_errors := console_errors st @ [snapshotError]\<rparr>
               | (ts, Inr info) \<Rightarrow>
                   (let st1 = st\<lparr>transport_of := fst ts, sandbox_log := snd ts,
                                  snapshotInfo := Some info\<rparr>
                    in case (case snapshot args of
                               Some so \<Rightarrow> (case onSnapshot so of Some cb \<Rightarrow> cb info | None \<Rightarrow> None)
                             | None \<Rightarrow> None) of
                         Some snapshotError \<Rightarrow>
                           st1\<lparr>console_errors := console_errors st1 @ [snapshotError]\<rparr>
                       | None \<Rightarrow>
                           st1\<lparr>messages := updateResultMessageWithSnapshot info (messages st1)\<rparr>))
            else st))"

text \<open>The claim's policy, in its own words: with advanced options, mode \<^verbatim>\<open>always\<close>, or
  mode \<^verbatim>\<open>on-success\<close> and a successful run; without them, the flag and a successful
  run.\<close>

definition snapshot_policy :: "SnapshotOptions option \<Rightarrow> bool \<Rightarrow> bool \<Rightarrow> bool" where
  "snapshot_policy advanced enabled success =
     (case advanced of
        Some so \<Rightarrow>
          (case mode so of Always \<Rightarrow> True | OnSuccess \<Rightarrow> success | Never \<Rightarrow> False | OnDemand \<Rightarrow> False)
      | None \<Rightarrow> enabled \<and> success)"

text \<open>\<^verbatim>\<open>handleTeardownAndLifecycle\<close>: the \<^verbatim>\<open>try\<close> block stops at the first error, which
  the \<^verbatim>\<open>catch\<close> logs.\<close>

definition handleTeardownAndLifecycle ::
  "QueryArgs \<Rightarrow> world \<Rightarrow> bool \<Rightarrow> js_error option \<Rightarrow> query_state \<Rightarrow> query_state" where
  "handleTeardownAndLifecycle args w success err st =
     (let duration = int (time_end w) - int (time_start w);
          hook_outcome =
            (case onTeardown (hooks args) of
               Some hook \<Rightarrow>
                 (if isConnected (transport_of st) then
                    (case sandbox (transport_of st) of
                       None \<Rightarrow> Some (SDKError ''Sandbox not connected'' ''SANDBOX_ERROR'')
                     | Some h \<Rightarrow>
                         hook \<lparr>info_success = success, info_error = err, durationMs = duration,
                               messagesCount = length (messages st)\<rparr>)
                  else None)
             | None \<Rightarrow> None)
      in case hook_outcome of
           Some teardownError \<Rightarrow> st\<lparr>console_errors := console_errors st @ [teardownError]\<rparr>
         | None \<Rightarrow>
             (let st1 = handleSnapshot args w success st;
                  ts = close w (transport_of st1, sandbox_log st1)
              in st1\<lparr>transport_of := fst ts, sandbox_log := snd ts\<rparr>))"

subsection \<open>The run\<close>

text \<open>What the consumer of \<^verbatim>\<open>run\<close> is left with: the final state, the number of turns
  started and the error the generator threw, if any.\<close>

record run_result =
  final :: query_state
  turns :: nat
  thrown :: "js_error option"

text \<open>\<^verbatim>\<open>error instanceof Error ? error : new Error(String(error))\<close>.\<close>

definition as_error :: "runtime \<Rightarrow> js_error \<Rightarrow> js_error" where
  "as_error rt err = (case err of ThrownValue v \<Rightarrow> NativeError (js_to_string rt v) | _ \<Rightarrow> err)"

text \<open>The \<^verbatim>\<open>catch\<close> and \<^verbatim>\<open>finally\<close> of \<^verbatim>\<open>run\<close> after an error.\<close>

definition run_failed :: "runtime \<Rightarrow> QueryArgs \<Rightarrow> world \<Rightarrow> query_state \<Rightarrow> nat \<Rightarrow> js_error \<Rightarrow> run_result" where
  "run_failed rt args w st n err =
     \<lparr>final = handleTeardownAndLifecycle args w False (Some (as_error rt err)) st,
      turns = n,
      thrown = Some (wrapError err ''Query failed'')\<rparr>"

definition initMessage :: "QueryArgs \<Rightarrow> world \<Rightarrow> string \<Rightarrow> (string \<times> json) list" where
  "initMessage args w sid =
     [(''type'', JString ''system''), (''subtype'', JString ''session_started''),
      (''uuid'', JString (generateUuid (entropy_at w 0))),
      (''session_id'', JString sid), (''parent_tool_use_id'', JNull),
      (''tools'', JArray (map (\<lambda>t. JString (name t)) (tools_of args))),
      (''mcp_servers'',
         JArray (map JString (case mcpServers (options args) of Some ks \<Rightarrow> ks | None \<Rightarrow> [])))]"

definition endMessage :: "world \<Rightarrow> string \<Rightarrow> nat \<Rightarrow> (string \<times> json) list" where
  "endMessage w sid n =
     [(''type'', JString ''system''), (''subtype'', JString ''session_ended''),
      (''uuid'', JString (generateUuid (entropy_at w n))),
      (''session_id'', JString sid), (''parent_tool_use_id'', JNull)]"

text \<open>\<^verbatim>\<open>run\<close> from the first \<^verbatim>\<open>yield\<close> on, once connect and setup have succeeded.\<close>

definition loop_entry :: "QueryArgs \<Rightarrow> world \<Rightarrow> string \<Rightarrow> query_state \<Rightarrow> query_state" where
  "loop_entry args w sid st1 =
     (let st2 = emit w (initMessage args w sid) st1
      in st2\<lparr>messages := messages st2 @ [initMessage args w sid]\<rparr>)"

definition run_session ::
  "runtime \<Rightarrow> QueryArgs \<Rightarrow> world \<Rightarrow> string \<Rightarrow> query_state \<Rightarrow> run_result" where
  "run_session rt args w sid st1 =
     (case turn_loop rt args w sid 0 [] (prompt args) (loop_entry args w sid st1) of
        (st4, n, Some err) \<Rightarrow> run_failed rt args w st4 n err
      | (st4, n, None) \<Rightarrow>
          (let st5 = emit w (endMessage w sid (length (yielded st4))) st4;
               st6 = st5\<lparr>messages := messages st5 @ [endMessage w sid (length (yielded st4))]\<rparr>
           in \<lparr>final = handleTeardownAndLifecycle args w True None st6,
               turns = n,
               thrown = None\<rparr>))"

text \<open>\<^verbatim>\<open>QueryImpl.run\<close>, pulled to its end; \<open>sid\<close> is \<^verbatim>\<open>this._sessionId\<close>.\<close>

definition after_connect :: "QueryArgs \<Rightarrow> world \<Rightarrow> query_state \<times> js_error option" where
  "after_connect args w =
     (let st0 = initial_state w;
          connected = connect w (arg_snapshotId args) (transport_of st0, sandbox_log st0)
      in (st0\<lparr>transport_of := fst (fst connected), sandbox_log := snd (fst connected)\<rparr>,
          snd connected))"

definition run :: "runtime \<Rightarrow> QueryArgs \<Rightarrow> world \<Rightarrow> string \<Rightarrow> run_result" where
  "run rt args w sid =
     (case after_connect args w of
        (st1, Some err) \<Rightarrow> run_failed rt args w st1 0 err
      | (st1, None) \<Rightarrow>
          (case setup_outcome w of
             Some err \<Rightarrow> run_failed rt args w st1 0 err
           | None \<Rightarrow> run_session rt args w sid st1))"

subsection \<open>Observations on a run\<close>

text \<open>What streaming and the turn loop leave alone: the sandbox handle, connectivity,
  the service log, the snapshot state and the console.\<close>

definition resources ::
  "query_state \<Rightarrow> nat option \<times> bool \<times> string option \<times> sandbox_event list
     \<times> SnapshotResult option \<times> js_error list" where
  "resources st =
     (sandbox (transport_of st), isConnected (transport_of st), snapshotId_opt (transport_of st),
      sandbox_log st, snapshotInfo st, console_errors st)"

definition snapshot_succeeds :: "world \<Rightarrow> bool" where
  "snapshot_succeeds w = (case snapshot_outcome w of Inr sid \<Rightarrow> True | Inl err \<Rightarrow> False)"

text \<open>The teardown hook, if there is one, returns normally whatever it is given.\<close>

definition hook_returns :: "QueryArgs \<Rightarrow> bool" where
  "hook_returns args =
     (case onTeardown (hooks args) of None \<Rightarrow> True | Some hook \<Rightarrow> \<forall>info. hook info = None)"

definition releases :: "nat \<Rightarrow> sandbox_event list \<Rightarrow> nat" where
  "releases h evs = length (filter (\<lambda>e. e = StopCalled h \<or> e = SnapshotCalled h True) evs)"


definition connect_succeeds :: "QueryArgs \<Rightarrow> world \<Rightarrow> bool" where
  "connect_succeeds args w = (snd (after_connect args w) = None)"






section \<open>Sample inputs\<close>

definition ex_entropy :: entropy where
  "ex_entropy = \<lparr>randomUUID = ''123e4567-e89b-42d3-a456-426614174000'', now = 1700000000000,
                 random36 = ''0.4fzyo82mvyr''\<rparr>"

definition ex_transport :: transport where
  "ex_transport = \<lparr>sandbox = None, isConnected = False, currentSessionId = None,
                   snapshotId_opt = None\<rparr>"

definition ex_populated :: "(string \<times> json) list" where
  "ex_populated =
     [(''type'', JString ''assistant''), (''uuid'', JString ''existing-uuid''),
      (''session_id'', JString ''existing-session''),
      (''parent_tool_use_id'', JString ''tool-123''),
      (''message'', JObject [(''role'', JString ''assistant''), (''content'', JArray [])])]"

definition ex_empty_uuid :: "(string \<times> json) list" where
  "ex_empty_uuid =
     [(''type'', JString ''system''), (''uuid'', JString []),
      (''session_id'', JString ''existing-session''),
      (''parent_tool_use_id'', JString ''tool-123'')]"

text \<open>A divider tool: both operands must be numbers; dividing by zero throws. Its schema
  is given once as Zod 3 reports a failure and once as Zod 4 does.\<close>

definition number_issues :: "json \<Rightarrow> string \<Rightarrow> zod_issue list" where
  "number_issues input k =
     (case get_prop input k of
        Some (JNum n) \<Rightarrow> []
      | Some v \<Rightarrow> [\<lparr>issue_path = [Key k], issue_message = ''Expected number''\<rparr>]
      | None \<Rightarrow> [\<lparr>issue_path = [Key k], issue_message = ''Required''\<rparr>])"

definition divider_handler :: "json \<Rightarrow> js_error + ToolResult" where
  "divider_handler data =
     (if get_prop data ''b'' = Some (JNum 0) then Inl (NativeError ''Something went wrong'')
      else Inr \<lparr>content = [TextContent ''done''], isError = None\<rparr>)"

definition ex_divider :: ToolDefinition where
  "ex_divider =
     \<lparr>name = ''divide'', description = ''Divide a by b'',
      schema = (\<lambda>input. case number_issues input ''a'' @ number_issues input ''b'' of
                          [] \<Rightarrow> Inr (ParseSuccess input)
                        | es \<Rightarrow> Inr (ParseFailure \<lparr>errors = Some es, issues = es\<rparr>)),
      handler = divider_handler\<rparr>"

definition ex_divider_zod4 :: ToolDefinition where
  "ex_divider_zod4 =
     \<lparr>name = ''divide'', description = ''Divide a by b'',
      schema = (\<lambda>input. case number_issues input ''a'' @ number_issues input ''b'' of
                          [] \<Rightarrow> Inr (ParseSuccess input)
                        | es \<Rightarrow> Inr (ParseFailure \<lparr>errors = None, issues = es\<rparr>)),
      handler = divider_handler\<rparr>"

definition ex_bad_input :: json where
  "ex_bad_input = JObject [(''a'', JString ''x''), (''b'', JNum 3)]"

definition ex_good_input :: json where
  "ex_good_input = JObject [(''a'', JNum 6), (''b'', JNum 3)]"

definition ex_zero_input :: json where
  "ex_zero_input = JObject [(''a'', JNum 1), (''b'', JNum 0)]"

text \<open>ASCII text as code units and as bytes.\<close>

definition ascii :: "string \<Rightarrow> jstext" where
  "ascii s = map (\<lambda>c. of_nat (of_char c)) s"

definition ascii_bytes :: "string \<Rightarrow> byte list" where
  "ascii_bytes s = map (\<lambda>c. of_nat (of_char c)) s"

text \<open>A decoder for ASCII streams: one code unit per byte, no state.\<close>

definition ex_step :: "unit \<Rightarrow> byte \<Rightarrow> jstext \<times> unit" where
  "ex_step d b = ([ucast b], d)"

text \<open>A stand-in for \<^verbatim>\<open>JSON.parse\<close> that knows three texts.\<close>

definition ex_json_parse :: "jstext \<Rightarrow> string + json" where
  "ex_json_parse t =
     (if t = ascii ''{\"type\":\"system\"}'' then Inr (JObject [(''type'', JString ''system'')])
      else if t = ascii ''{\"type\":\"result\"}'' then Inr (JObject [(''type'', JString ''result'')])
      else if t = ascii ''{\"type\":42}'' then Inr (JObject [(''type'', JNum 42)])
      else Inl ''Unexpected token'')"

definition ex_lines :: "jstext list" where
  "ex_lines = [ascii ''{\"type\":\"system\"}'', [], ascii ''{\"type\":\"result\"}'']"

definition ex_chunks :: "byte list list" where
  "ex_chunks =
     [ascii_bytes ''{\"type\":\"sys'',
      ascii_bytes ''tem\"}'' @ [0x0A, 0x0A] @ ascii_bytes ''{\"ty'',
      ascii_bytes ''pe\":\"result\"}'']"

definition ex_runtime :: runtime where
  "ex_runtime = \<lparr>js_to_string = (\<lambda>v. []), stringify_content = (\<lambda>c. []),
                 parseToolRequestsFromText = (\<lambda>txt. [])\<rparr>"

text \<open>A runtime whose scan finds one request for the divider in any non-empty text.\<close>

definition ex_runtime_requests :: runtime where
  "ex_runtime_requests =
     \<lparr>js_to_string = (\<lambda>v. []), stringify_content = (\<lambda>c. []),
      parseToolRequestsFromText =
        (\<lambda>txt. if txt = [] then [] else [\<lparr>req_tool = ''divide'', req_input = ex_good_input\<rparr>])\<rparr>"

definition ex_assistant :: "(string \<times> json) list" where
  "ex_assistant =
     [(''type'', JString ''assistant''), (''uuid'', JString ''u-1''), (''session_id'', JString ''s-1''),
      (''parent_tool_use_id'', JNull),
      (''message'', JObject [(''role'', JString ''assistant''),
                             (''content'', JArray [JObject [(''type'', JString ''text''),
                                                            (''text'', JString ''4'')]])])]"

text \<open>A world in which everything works and the CLI answers with one assistant message.\<close>

definition ex_world :: world where
  "ex_world =
     \<lparr>has_credentials = True, create_outcome = Inr 1, install_outcome = None,
      setup_outcome = None, session_outcome = (\<lambda>n p. ([ex_assistant], None)),
      interrupt_after = None, snapshot_outcome = Inr ''snap_1'',
      time_start = 1000, time_end = 5000, entropy_at = (\<lambda>n. ex_entropy)\<rparr>"

definition ex_args :: QueryArgs where
  "ex_args =
     \<lparr>prompt = ''What is 2 + 2?'',
      options = \<lparr>maxTurns = None, tools = None, mcpServers = None\<rparr>,
      arg_snapshotId = None, hooks = \<lparr>onTeardown = None\<rparr>,
      snapshotEnabled = None, snapshot = None\<rparr>"

text \<open>The same query with a teardown hook that throws.\<close>

definition ex_args_failing_teardown :: QueryArgs where
  "ex_args_failing_teardown =
     ex_args\<lparr>hooks := \<lparr>onTeardown = Some (\<lambda>info. Some (NativeError ''teardown failed''))\<rparr>\<rparr>"

text \<open>The same query with \<^verbatim>\<open>snapshot: {mode: 'always'}\<close>, and a world without credentials.\<close>

definition ex_args_always :: QueryArgs where
  "ex_args_always = ex_args\<lparr>snapshot := Some \<lparr>mode = Always, metadata = None, onSnapshot = None\<rparr>\<rparr>"


text \<open>A world in which \<^verbatim>\<open>snapshot()\<close> fails, and the query with \<^verbatim>\<open>snapshotEnabled: false\<close>.\<close>

definition ex_world_snapshot_fails :: world where
  "ex_world_snapshot_fails = ex_world\<lparr>snapshot_outcome := Inl (NativeError ''snapshot failed'')\<rparr>"

definition ex_args_disabled :: QueryArgs where
  "ex_args_disabled = ex_args\<lparr>snapshotEnabled := Some False\<rparr>"



text \<open>The same query with \<^verbatim>\<open>maxTurns: 0\<close> and with \<^verbatim>\<open>maxTurns: 1\<close>.\<close>

definition ex_args_zero_turns :: QueryArgs where
  "ex_args_zero_turns = ex_args\<lparr>options := \<lparr>maxTurns = Some 0, tools = None, mcpServers = None\<rparr>\<rparr>"

definition ex_args_one_turn :: QueryArgs where
  "ex_args_one_turn =
     ex_args\<lparr>options := \<lparr>maxTurns = Some 1, tools = Some [ex_divider], mcpServers = None\<rparr>\<rparr>"

definition ex_connected :: query_state where
  "ex_connected =
     (initial_state ex_world)
        \<lparr>transport_of := \<lparr>sandbox = Some 1, isConnected = True, currentSessionId = None,
                           snapshotId_opt = None\<rparr>,
         sandbox_log := [Created 1]\<rparr>"

section \<open>Enrichment: auxiliary facts\<close>

lemma map_of_set_prop: "map_of (set_prop k v kvs) = (map_of kvs)(k \<mapsto> v)"
  by (simp add: set_prop_def update_conv')

lemma not_obj_iff: "(\<not> truthy x \<or> typeof x \<noteq> Object) \<longleftrightarrow> \<not> is_object x"
  by (cases x rule: typeof.cases) (simp_all add: is_object_def)

lemma typeof_string_or: "typeof (Some (string_or x (JString d))) = String"
  by (cases x rule: typeof.cases) (simp_all add: string_or_def)

lemma string_or_null:
  "typeof (Some (string_or x JNull)) = String \<or> string_or x JNull = JNull"
  by (cases x rule: typeof.cases) (simp_all add: string_or_def)

lemma string_or_keep: "string_or (Some (JString s)) d = JString s"
  by (simp add: string_or_def)

lemma isValid_iff:
  "isValidMessageStructure raw \<longleftrightarrow>
     (\<exists>kvs t. raw = JObject kvs \<and> map_of kvs ''type'' = Some (JString t) \<and> t \<in> VALID_MESSAGE_TYPES)"
proof (cases raw)
  case (JObject kvs)
  show ?thesis
  proof (cases "map_of kvs ''type''")
    case None
    then show ?thesis using JObject by (simp add: isValidMessageStructure_def get_prop_def)
  next
    case (Some v)
    then show ?thesis using JObject
      by (cases v) (simp_all add: isValidMessageStructure_def get_prop_def)
  qed
qed (simp_all add: isValidMessageStructure_def get_prop_def)

lemma type_defaults_message:
  "t = ''assistant'' \<or> t = ''user'' \<Longrightarrow>
   type_defaults t kvs =
     (if is_object (map_of kvs ''message'') then kvs
      else set_prop ''message'' (default_message t) kvs)"
  unfolding type_defaults_def using not_obj_iff [of "map_of kvs ''message''"] by auto

lemma type_defaults_result:
  "type_defaults ''result'' kvs =
     (if typeof (map_of kvs ''subtype'') = String then kvs
      else set_prop ''subtype'' (JString ''success'') kvs)"
  unfolding type_defaults_def by simp

lemma type_defaults_error:
  "type_defaults ''error'' kvs =
     (if is_object (map_of kvs ''error'') then kvs
      else set_prop ''error'' default_error kvs)"
  unfolding type_defaults_def using not_obj_iff [of "map_of kvs ''error''"] by simp

lemma type_defaults_other:
  "t \<noteq> ''assistant'' \<Longrightarrow> t \<noteq> ''user'' \<Longrightarrow> t \<noteq> ''result'' \<Longrightarrow> t \<noteq> ''error'' \<Longrightarrow>
   type_defaults t kvs = kvs"
  unfolding type_defaults_def by simp

lemma type_defaults_frame:
  assumes k: "Some k \<noteq> defaulted_field t"
  shows "map_of (type_defaults t kvs) k = map_of kvs k"
proof -
  consider "t = ''assistant'' \<or> t = ''user''" | "t = ''result''" | "t = ''error''"
    | "t \<noteq> ''assistant''" "t \<noteq> ''user''" "t \<noteq> ''result''" "t \<noteq> ''error''"
    by blast
  then show ?thesis
  proof cases
    case 1
    then have "k \<noteq> ''message''" using k by (auto simp: defaulted_field_def)
    then show ?thesis using 1 by (simp add: type_defaults_message map_of_set_prop)
  next
    case 2
    then have "k \<noteq> ''subtype''" using k by (simp add: defaulted_field_def)
    then show ?thesis using 2 by (simp add: type_defaults_result map_of_set_prop)
  next
    case 3
    then have "k \<noteq> ''error''" using k by (simp add: defaulted_field_def)
    then show ?thesis using 3 by (simp add: type_defaults_error map_of_set_prop)
  next
    case 4
    then show ?thesis by (simp add: type_defaults_other)
  qed
qed

lemma defaulted_not_identity:
  "Some ''uuid'' \<noteq> defaulted_field t" "Some ''session_id'' \<noteq> defaulted_field t"
  "Some ''parent_tool_use_id'' \<noteq> defaulted_field t"
  by (simp_all add: defaulted_field_def)

lemma spread_uuid: "typeof (map_of (spread_identity this e kvs) ''uuid'') = String"
  by (simp add: spread_identity_def map_of_set_prop typeof_string_or)

lemma spread_session: "typeof (map_of (spread_identity this e kvs) ''session_id'') = String"
  by (simp add: spread_identity_def map_of_set_prop typeof_string_or)

lemma spread_parent:
  "typeof (map_of (spread_identity this e kvs) ''parent_tool_use_id'') = String
   \<or> map_of (spread_identity this e kvs) ''parent_tool_use_id'' = Some JNull"
  using string_or_null [of "map_of kvs ''parent_tool_use_id''"]
  by (simp add: spread_identity_def map_of_set_prop)

lemma spread_frame:
  "k \<noteq> ''uuid'' \<Longrightarrow> k \<noteq> ''session_id'' \<Longrightarrow> k \<noteq> ''parent_tool_use_id'' \<Longrightarrow>
   map_of (spread_identity this e kvs) k = map_of kvs k"
  by (simp add: spread_identity_def map_of_set_prop)

lemma spread_keep:
  assumes "map_of kvs k = Some (JString s)"
  shows "map_of (spread_identity this e kvs) k = Some (JString s)"
proof -
  consider "k = ''uuid''" | "k = ''session_id''" | "k = ''parent_tool_use_id''"
    | "k \<noteq> ''uuid''" "k \<noteq> ''session_id''" "k \<noteq> ''parent_tool_use_id''"
    by blast
  then show ?thesis
  proof cases
    case 1
    with assms have "map_of kvs ''uuid'' = Some (JString s)" by simp
    then show ?thesis using 1 by (simp add: spread_identity_def map_of_set_prop string_or_keep)
  next
    case 2
    with assms have "map_of kvs ''session_id'' = Some (JString s)" by simp
    then show ?thesis using 2 by (simp add: spread_identity_def map_of_set_prop string_or_keep)
  next
    case 3
    with assms have "map_of kvs ''parent_tool_use_id'' = Some (JString s)" by simp
    then show ?thesis using 3 by (simp add: spread_identity_def map_of_set_prop string_or_keep)
  next
    case 4
    then show ?thesis using assms by (simp add: spread_frame)
  qed
qed

lemma enrich_valid:
  assumes "map_of kvs ''type'' = Some (JString t)" "t \<in> VALID_MESSAGE_TYPES"
  shows "enrichMessage stringify this e (JObject kvs) =
           Inr (JObject (type_defaults t (spread_identity this e kvs)))"
proof -
  have v: "isValidMessageStructure (JObject kvs)"
    unfolding isValid_iff using assms by (intro exI conjI) (rule refl)
  have "map_of (spread_identity this e kvs) ''type'' = Some (JString t)"
    using assms(1) by (simp add: spread_frame)
  then show ?thesis using v by (simp add: enrichMessage_def Let_def)
qed

lemma enrich_invalid:
  "\<not> isValidMessageStructure raw \<Longrightarrow>
   enrichMessage stringify this e raw = Inl (structure_error (stringify raw))"
  by (simp add: enrichMessage_def)

lemma enrich_accepts_only_valid:
  "enrichMessage stringify this e raw = Inr out \<Longrightarrow> isValidMessageStructure raw"
  by (cases "isValidMessageStructure raw") (simp_all add: enrichMessage_def)

lemma gate_rejects_iff:
  "(raw = JNull \<or> typeof (Some raw) \<noteq> Object \<or> get_prop raw ''type'' = None
      \<or> typeof (get_prop raw ''type'') \<noteq> String
      \<or> (\<exists>t. get_prop raw ''type'' = Some (JString t) \<and> t \<notin> VALID_MESSAGE_TYPES))
   \<longleftrightarrow> \<not> isValidMessageStructure raw"
proof (cases raw)
  case (JObject kvs)
  show ?thesis
  proof (cases "map_of kvs ''type''")
    case None
    then show ?thesis using JObject by (simp add: get_prop_def isValidMessageStructure_def)
  next
    case (Some v)
    then show ?thesis using JObject
      by (cases v) (simp_all add: get_prop_def isValidMessageStructure_def)
  qed
qed (simp_all add: get_prop_def isValidMessageStructure_def)

section \<open>Enrichment: the claims\<close>

text \<open>
  C1. For every raw parsed value that is a non-null object whose \<^verbatim>\<open>type\<close> is a string of
  the closed set, \<^verbatim>\<open>SandboxTransport.enrichMessage\<close> returns a message whose \<^verbatim>\<open>uuid\<close> and
  \<^verbatim>\<open>session_id\<close> are strings and whose \<^verbatim>\<open>parent_tool_use_id\<close> is a string or
  \<^verbatim>\<open>null\<close>, never absent; an \<^verbatim>\<open>assistant\<close> or \<^verbatim>\<open>user\<close> input without an object
  \<^verbatim>\<open>message\<close> gains \<^verbatim>\<open>{role: type, content: []}\<close>, a \<^verbatim>\<open>result\<close> input without a string
  \<^verbatim>\<open>subtype\<close> gains \<^verbatim>\<open>"success"\<close>, and an \<^verbatim>\<open>error\<close> input without an object
  \<^verbatim>\<open>error\<close> gains the \<^verbatim>\<open>UNKNOWN_ERROR\<close> default.
\<close>

theorem enrichMessage_identity_and_defaults:
  assumes "raw = JObject kvs"
      and "map_of kvs ''type'' = Some (JString t)"
      and "t \<in> VALID_MESSAGE_TYPES"
  shows "\<exists>out. enrichMessage stringify this e raw = Inr out
     \<and> typeof (get_prop out ''uuid'') = String
     \<and> typeof (get_prop out ''session_id'') = String
     \<and> (typeof (get_prop out ''parent_tool_use_id'') = String
          \<or> get_prop out ''parent_tool_use_id'' = Some JNull)
     \<and> ((t = ''assistant'' \<or> t = ''user'') \<and> \<not> is_object (get_prop raw ''message'')
          \<longrightarrow> get_prop out ''message'' =
                Some (JObject [(''role'', JString t), (''content'', JArray [])]))
     \<and> (t = ''result'' \<and> typeof (get_prop raw ''subtype'') \<noteq> String
          \<longrightarrow> get_prop out ''subtype'' = Some (JString ''success''))
     \<and> (t = ''error'' \<and> \<not> is_object (get_prop raw ''error'')
          \<longrightarrow> get_prop out ''error'' =
                Some (JObject [(''code'', JString ''UNKNOWN_ERROR''),
                               (''message'', JString ''Unknown error occurred'')]))"
proof -
  let ?b = "spread_identity this e kvs"
  let ?out = "JObject (type_defaults t ?b)"
  have r: "enrichMessage stringify this e raw = Inr ?out"
    unfolding assms(1) by (rule enrich_valid [OF assms(2,3)])
  have u: "typeof (get_prop ?out ''uuid'') = String"
    by (simp add: get_prop_def type_defaults_frame [OF defaulted_not_identity(1)] spread_uuid)
  have s: "typeof (get_prop ?out ''session_id'') = String"
    by (simp add: get_prop_def type_defaults_frame [OF defaulted_not_identity(2)] spread_session)
  have p: "typeof (get_prop ?out ''parent_tool_use_id'') = String
          \<or> get_prop ?out ''parent_tool_use_id'' = Some JNull"
    using spread_parent [of this e kvs]
    by (simp add: get_prop_def type_defaults_frame [OF defaulted_not_identity(3)])
  have m: "(t = ''assistant'' \<or> t = ''user'') \<and> \<not> is_object (get_prop raw ''message'')
          \<longrightarrow> get_prop ?out ''message'' =
                Some (JObject [(''role'', JString t), (''content'', JArray [])])"
    by (simp add: assms(1) get_prop_def type_defaults_message spread_frame map_of_set_prop
          default_message_def)
  have st: "t = ''result'' \<and> typeof (get_prop raw ''subtype'') \<noteq> String
          \<longrightarrow> get_prop ?out ''subtype'' = Some (JString ''success'')"
    by (simp add: assms(1) get_prop_def type_defaults_result spread_frame map_of_set_prop)
  have er: "t = ''error'' \<and> \<not> is_object (get_prop raw ''error'')
          \<longrightarrow> get_prop ?out ''error'' =
                Some (JObject [(''code'', JString ''UNKNOWN_ERROR''),
                               (''message'', JString ''Unknown error occurred'')])"
    by (simp add: assms(1) get_prop_def type_defaults_error spread_frame map_of_set_prop
          default_error_def)
  show ?thesis
    by (rule exI [of _ ?out], intro conjI) (rule r u s p m st er)+
qed

theorem enrichMessage_identity_and_defaults_witness:
  "map_of [(''type'', JString ''result'')] ''type'' = Some (JString ''result'')
   \<and> ''result'' \<in> VALID_MESSAGE_TYPES
   \<and> enrichMessage (\<lambda>v. []) ex_transport ex_entropy (JObject [(''type'', JString ''result'')])
       = Inr (JObject [(''type'', JString ''result''),
                       (''uuid'', JString ''123e4567-e89b-42d3-a456-426614174000''),
                       (''session_id'', JString ''session_1700000000000_4fzyo82mv''),
                       (''parent_tool_use_id'', JNull),
                       (''subtype'', JString ''success'')])"
proof -
  let ?raw = "JObject [(''type'', JString ''result'')]"
  have v: "''result'' \<in> VALID_MESSAGE_TYPES" by (simp add: VALID_MESSAGE_TYPES_def)
  have m: "map_of [(''type'', JString ''result'')] ''type'' = Some (JString ''result'')" by simp
  from enrichMessage_identity_and_defaults [OF refl m v, of "\<lambda>v. []" ex_transport ex_entropy]
  obtain out where o: "enrichMessage (\<lambda>v. []) ex_transport ex_entropy ?raw = Inr out"
    and sub: "get_prop out ''subtype'' = Some (JString ''success'')"
    by (elim exE conjE) (simp add: get_prop_def)
  have "enrichMessage (\<lambda>v. []) ex_transport ex_entropy ?raw
       = Inr (JObject [(''type'', JString ''result''),
                       (''uuid'', JString ''123e4567-e89b-42d3-a456-426614174000''),
                       (''session_id'', JString ''session_1700000000000_4fzyo82mv''),
                       (''parent_tool_use_id'', JNull),
                       (''subtype'', JString ''success'')])"
    by (simp add: enrichMessage_def isValidMessageStructure_def get_prop_def VALID_MESSAGE_TYPES_def
          set_prop_def type_defaults_def session_or_fresh_def generateSessionId_def generateUuid_def
          spread_identity_def string_or_def structure_error_def
          ex_entropy_def ex_transport_def decimal.simps)
  with m v show ?thesis by (intro conjI)
qed

text \<open>
  C2. For every input that is \<^verbatim>\<open>null\<close>, not an object, lacks a \<^verbatim>\<open>type\<close> field, has a
  non-string \<^verbatim>\<open>type\<close>, or has a string \<^verbatim>\<open>type\<close> outside the closed set,
  \<^verbatim>\<open>SandboxTransport.enrichMessage\<close> throws the structural \<^verbatim>\<open>ParseError\<close> carrying the
  serialized offending value, and returns no message.
\<close>

theorem enrichMessage_rejects_malformed:
  assumes "raw = JNull \<or> typeof (Some raw) \<noteq> Object \<or> get_prop raw ''type'' = None
           \<or> typeof (get_prop raw ''type'') \<noteq> String
           \<or> (\<exists>t. get_prop raw ''type'' = Some (JString t) \<and> t \<notin> VALID_MESSAGE_TYPES)"
  shows "enrichMessage stringify this e raw =
           Inl (ParseError ''Invalid message structure: missing or invalid 'type' field''
                  (Some (stringify raw)))"
proof -
  have "\<not> isValidMessageStructure raw"
    by (rule iffD1 [OF gate_rejects_iff assms])
  then show ?thesis by (simp add: enrich_invalid structure_error_def)
qed

theorem enrichMessage_rejects_malformed_witness:
  "typeof (get_prop (JObject [(''type'', JNum 42)]) ''type'') \<noteq> String
   \<and> enrichMessage (\<lambda>v. [0x7B, 0x7D]) ex_transport ex_entropy (JObject [(''type'', JNum 42)]) =
       Inl (ParseError ''Invalid message structure: missing or invalid 'type' field''
              (Some [0x7B, 0x7D]))"
proof -
  let ?raw = "JObject [(''type'', JNum 42)]"
  have h: "typeof (get_prop ?raw ''type'') \<noteq> String"
    by (simp add: get_prop_def)
  then have "?raw = JNull \<or> typeof (Some ?raw) \<noteq> Object
      \<or> get_prop ?raw ''type'' = None
      \<or> typeof (get_prop ?raw ''type'') \<noteq> String
      \<or> (\<exists>t. get_prop ?raw ''type'' = Some (JString t) \<and> t \<notin> VALID_MESSAGE_TYPES)"
    by (intro disjI2 disjI1)
  from enrichMessage_rejects_malformed [OF this, of "\<lambda>v. [0x7B, 0x7D]" ex_transport ex_entropy] h
  show ?thesis by (intro conjI)
qed

text \<open>
  C10. For every input accepted by \<^verbatim>\<open>SandboxTransport.enrichMessage\<close>, every field other
  than \<^verbatim>\<open>uuid\<close>, \<^verbatim>\<open>session_id\<close>, \<^verbatim>\<open>parent_tool_use_id\<close> and the one field the message
  type may default reads the same in the output as in the input (present with the same
  value, or absent in both).
\<close>

theorem enrichMessage_frame:
  assumes "enrichMessage stringify this e raw = Inr out"
      and "get_prop raw ''type'' = Some (JString t)"
      and "k \<noteq> ''uuid''" "k \<noteq> ''session_id''" "k \<noteq> ''parent_tool_use_id''"
      and "Some k \<noteq> defaulted_field t"
  shows "get_prop out k = get_prop raw k"
proof -
  have "isValidMessageStructure raw"
    using assms(1) by (rule enrich_accepts_only_valid)
  then obtain kvs t' where r: "raw = JObject kvs" "map_of kvs ''type'' = Some (JString t')"
     "t' \<in> VALID_MESSAGE_TYPES"
    unfolding isValid_iff by (elim exE conjE)
  with assms(2) have t: "t' = t" by (simp add: get_prop_def)
  have "out = JObject (type_defaults t (spread_identity this e kvs))"
    using assms(1) enrich_valid [OF r(2,3), of stringify this e] r(1) t by simp
  then show ?thesis
    using assms(3-6) r(1) by (simp add: get_prop_def type_defaults_frame spread_frame)
qed

theorem enrichMessage_frame_witness:
  "enrichMessage (\<lambda>v. []) ex_transport ex_entropy
       (JObject [(''type'', JString ''progress''), (''message'', JString ''Loading...''),
                 (''percent'', JNum 50)])
     = Inr (JObject [(''type'', JString ''progress''), (''message'', JString ''Loading...''),
                     (''percent'', JNum 50),
                     (''uuid'', JString ''123e4567-e89b-42d3-a456-426614174000''),
                     (''session_id'', JString ''session_1700000000000_4fzyo82mv''),
                     (''parent_tool_use_id'', JNull)])
   \<and> Some ''percent'' \<noteq> defaulted_field ''progress''
   \<and> get_prop (JObject [(''type'', JString ''progress''), (''message'', JString ''Loading...''),
                     (''percent'', JNum 50),
                     (''uuid'', JString ''123e4567-e89b-42d3-a456-426614174000''),
                     (''session_id'', JString ''session_1700000000000_4fzyo82mv''),
                     (''parent_tool_use_id'', JNull)]) ''percent'' = Some (JNum 50)"
proof -
  let ?raw = "JObject [(''type'', JString ''progress''), (''message'', JString ''Loading...''),
                 (''percent'', JNum 50)]"
  let ?out = "JObject [(''type'', JString ''progress''), (''message'', JString ''Loading...''),
                     (''percent'', JNum 50),
                     (''uuid'', JString ''123e4567-e89b-42d3-a456-426614174000''),
                     (''session_id'', JString ''session_1700000000000_4fzyo82mv''),
                     (''parent_tool_use_id'', JNull)]"
  have r: "enrichMessage (\<lambda>v. []) ex_transport ex_entropy ?raw = Inr ?out"
    by (simp add: enrichMessage_def isValidMessageStructure_def get_prop_def VALID_MESSAGE_TYPES_def
          set_prop_def type_defaults_def session_or_fresh_def generateSessionId_def generateUuid_def
          spread_identity_def string_or_def structure_error_def
          ex_entropy_def ex_transport_def decimal.simps)
  have t: "get_prop ?raw ''type'' = Some (JString ''progress'')" by (simp add: get_prop_def)
  have d: "Some ''percent'' \<noteq> defaulted_field ''progress''" by (simp add: defaulted_field_def)
  have "get_prop ?out ''percent'' = get_prop ?raw ''percent''"
    by (rule enrichMessage_frame [OF r t _ _ _ d]) simp_all
  moreover have "get_prop ?raw ''percent'' = Some (JNum 50)" by (simp add: get_prop_def)
  ultimately have "get_prop ?out ''percent'' = Some (JNum 50)" by (rule trans)
  with r d show ?thesis by (intro conjI)
qed

lemma or_else_keep: "s \<noteq> [] \<Longrightarrow> or_else (Some (JString s)) d = JString s"
  by (simp add: or_else_def)

lemma nullish_keep: "nullish_or (Some (JString s)) d = JString s"
  by (simp add: nullish_or_def)

lemma query_enrich_complete:
  "truthy (map_of msg ''uuid'') \<Longrightarrow> truthy (map_of msg ''session_id'') \<Longrightarrow>
   QueryImpl_enrichMessage sid e msg = msg"
  by (simp add: QueryImpl_enrichMessage_def)

lemma query_enrich_parent:
  assumes "map_of msg ''parent_tool_use_id'' = Some (JString p)"
  shows "map_of (QueryImpl_enrichMessage sid e msg) ''parent_tool_use_id'' = Some (JString p)"
  using assms by (simp add: QueryImpl_enrichMessage_def map_of_set_prop nullish_keep)

lemma query_enrich_uuid:
  assumes "map_of msg ''uuid'' = Some (JString u)" "u \<noteq> []"
  shows "map_of (QueryImpl_enrichMessage sid e msg) ''uuid'' = Some (JString u)"
  using assms by (simp add: QueryImpl_enrichMessage_def map_of_set_prop or_else_keep)

lemma query_enrich_session:
  assumes "map_of msg ''session_id'' = Some (JString s)" "s \<noteq> []"
  shows "map_of (QueryImpl_enrichMessage sid e msg) ''session_id'' = Some (JString s)"
  using assms by (simp add: QueryImpl_enrichMessage_def map_of_set_prop or_else_keep)

text \<open>
  C8, as the code has it. For every message of a known type whose \<^verbatim>\<open>uuid\<close>,
  \<^verbatim>\<open>session_id\<close> and \<^verbatim>\<open>parent_tool_use_id\<close> are strings, the transport's
  \<^verbatim>\<open>enrichMessage\<close> returns a message with the same three values. The orchestrator's
  \<^verbatim>\<open>enrichMessage\<close> always keeps \<^verbatim>\<open>parent_tool_use_id\<close>, keeps \<^verbatim>\<open>uuid\<close> when it is
  non-empty and \<^verbatim>\<open>session_id\<close> when it is non-empty, and returns the message itself when
  both are non-empty: it reads an empty string as an absent identifier.
\<close>

theorem enrichment_preserves_identity:
  assumes "map_of msg ''type'' = Some (JString t)"
      and "t \<in> VALID_MESSAGE_TYPES"
      and "map_of msg ''uuid'' = Some (JString u)"
      and "map_of msg ''session_id'' = Some (JString s)"
      and "map_of msg ''parent_tool_use_id'' = Some (JString p)"
  shows "(\<exists>out. enrichMessage stringify this e (JObject msg) = Inr out
            \<and> get_prop out ''uuid'' = Some (JString u)
            \<and> get_prop out ''session_id'' = Some (JString s)
            \<and> get_prop out ''parent_tool_use_id'' = Some (JString p))
       \<and> map_of (QueryImpl_enrichMessage sid e msg) ''parent_tool_use_id'' = Some (JString p)
       \<and> (u \<noteq> [] \<longrightarrow> map_of (QueryImpl_enrichMessage sid e msg) ''uuid'' = Some (JString u))
       \<and> (s \<noteq> [] \<longrightarrow> map_of (QueryImpl_enrichMessage sid e msg) ''session_id'' = Some (JString s))
       \<and> (u \<noteq> [] \<and> s \<noteq> [] \<longrightarrow> QueryImpl_enrichMessage sid e msg = msg)"
proof -
  let ?out = "JObject (type_defaults t (spread_identity this e msg))"
  have r: "enrichMessage stringify this e (JObject msg) = Inr ?out"
    by (rule enrich_valid [OF assms(1,2)])
  have a: "get_prop ?out ''uuid'' = Some (JString u)"
    by (simp add: get_prop_def type_defaults_frame [OF defaulted_not_identity(1)]
          spread_keep [OF assms(3)])
  have b: "get_prop ?out ''session_id'' = Some (JString s)"
    by (simp add: get_prop_def type_defaults_frame [OF defaulted_not_identity(2)]
          spread_keep [OF assms(4)])
  have c: "get_prop ?out ''parent_tool_use_id'' = Some (JString p)"
    by (simp add: get_prop_def type_defaults_frame [OF defaulted_not_identity(3)]
          spread_keep [OF assms(5)])
  have tr: "\<exists>out. enrichMessage stringify this e (JObject msg) = Inr out
            \<and> get_prop out ''uuid'' = Some (JString u)
            \<and> get_prop out ''session_id'' = Some (JString s)
            \<and> get_prop out ''parent_tool_use_id'' = Some (JString p)"
    by (rule exI [of _ ?out], intro conjI) (rule r a b c)+
  have q1: "map_of (QueryImpl_enrichMessage sid e msg) ''parent_tool_use_id'' = Some (JString p)"
    by (rule query_enrich_parent [OF assms(5)])
  have q2: "u \<noteq> [] \<longrightarrow> map_of (QueryImpl_enrichMessage sid e msg) ''uuid'' = Some (JString u)"
    by (simp add: query_enrich_uuid [OF assms(3)])
  have q3: "s \<noteq> [] \<longrightarrow> map_of (QueryImpl_enrichMessage sid e msg) ''session_id'' = Some (JString s)"
    by (simp add: query_enrich_session [OF assms(4)])
  have q4: "u \<noteq> [] \<and> s \<noteq> [] \<longrightarrow> QueryImpl_enrichMessage sid e msg = msg"
    using assms(3,4) by (simp add: query_enrich_complete)
  show ?thesis by (intro conjI) (rule tr q1 q2 q3 q4)+
qed

theorem enrichment_preserves_identity_witness:
  "map_of ex_populated ''type'' = Some (JString ''assistant'')
   \<and> ''assistant'' \<in> VALID_MESSAGE_TYPES
   \<and> map_of ex_populated ''uuid'' = Some (JString ''existing-uuid'')
   \<and> map_of ex_populated ''session_id'' = Some (JString ''existing-session'')
   \<and> map_of ex_populated ''parent_tool_use_id'' = Some (JString ''tool-123'')
   \<and> enrichMessage (\<lambda>v. []) ex_transport ex_entropy (JObject ex_populated) = Inr (JObject ex_populated)
   \<and> QueryImpl_enrichMessage ''session_1_abc'' ex_entropy ex_populated = ex_populated"
proof -
  have h1: "map_of ex_populated ''type'' = Some (JString ''assistant'')"
    by (simp add: ex_populated_def)
  have h2: "''assistant'' \<in> VALID_MESSAGE_TYPES" by (simp add: VALID_MESSAGE_TYPES_def)
  have h3: "map_of ex_populated ''uuid'' = Some (JString ''existing-uuid'')"
    by (simp add: ex_populated_def)
  have h4: "map_of ex_populated ''session_id'' = Some (JString ''existing-session'')"
    by (simp add: ex_populated_def)
  have h5: "map_of ex_populated ''parent_tool_use_id'' = Some (JString ''tool-123'')"
    by (simp add: ex_populated_def)
  note t = enrichment_preserves_identity [OF h1 h2 h3 h4 h5,
      of "\<lambda>v. []" ex_transport ex_entropy "''session_1_abc''"]
  have q: "QueryImpl_enrichMessage ''session_1_abc'' ex_entropy ex_populated = ex_populated"
    using t by simp
  have r: "enrichMessage (\<lambda>v. []) ex_transport ex_entropy (JObject ex_populated) = Inr (JObject ex_populated)"
    by (simp add: enrichMessage_def isValidMessageStructure_def get_prop_def VALID_MESSAGE_TYPES_def
          set_prop_def type_defaults_def spread_identity_def string_or_def structure_error_def
          ex_populated_def Let_def)
  show ?thesis by (intro conjI) (rule h1 h2 h3 h4 h5 r q)+
qed

text \<open>
  C8 as stated fails for the orchestrator: a message of a known type whose three
  identity fields are strings, the \<^verbatim>\<open>uuid\<close> being the empty string, comes back with a
  freshly generated \<^verbatim>\<open>uuid\<close>.
\<close>

theorem query_enrichMessage_replaces_empty_uuid:
  "map_of ex_empty_uuid ''type'' = Some (JString ''system'')
   \<and> ''system'' \<in> VALID_MESSAGE_TYPES
   \<and> typeof (map_of ex_empty_uuid ''uuid'') = String
   \<and> typeof (map_of ex_empty_uuid ''session_id'') = String
   \<and> typeof (map_of ex_empty_uuid ''parent_tool_use_id'') = String
   \<and> map_of (QueryImpl_enrichMessage ''session_1_abc'' ex_entropy ex_empty_uuid) ''uuid''
       = Some (JString ''123e4567-e89b-42d3-a456-426614174000'')
   \<and> map_of (QueryImpl_enrichMessage ''session_1_abc'' ex_entropy ex_empty_uuid) ''uuid''
       \<noteq> map_of ex_empty_uuid ''uuid''"
  by (simp add: ex_empty_uuid_def VALID_MESSAGE_TYPES_def QueryImpl_enrichMessage_def
        map_of_set_prop or_else_def nullish_or_def generateUuid_def ex_entropy_def)

section \<open>Tool execution: the claims\<close>

lemma join_contains:
  "x \<in> set xs \<Longrightarrow> \<exists>pre post. join sep xs = pre @ x @ post"
proof (induction sep xs rule: join.induct)
  case (1 sep)
  then show ?case by simp
next
  case (2 sep y)
  then have "join sep [y] = [] @ x @ []" by simp
  then show ?case by blast
next
  case (3 sep a b ys)
  show ?case
  proof (cases "x = a")
    case True
    then have "join sep (a # b # ys) = [] @ x @ (sep @ join sep (b # ys))" by simp
    then show ?thesis by blast
  next
    case False
    with 3 obtain pre post where "join sep (b # ys) = pre @ x @ post" by auto
    then have "join sep (a # b # ys) = (a @ sep @ pre) @ x @ post" by simp
    then show ?thesis by blast
  qed
qed

text \<open>What \<^verbatim>\<open>executeTool\<close> does on each path, and exactly when its promise rejects.\<close>

lemma executeTool_validation_error:
  assumes "schema tool input = Inr (ParseFailure e)" and "errors e = Some es"
  shows "executeTool tool input =
           Inr \<lparr>content = [TextContent (''Validation error: '' @ join '', '' (map issue_text es))],
                isError = Some True\<rparr>"
    and "\<forall>i \<in> set es. \<exists>pre post.
           ''Validation error: '' @ join '', '' (map issue_text es) =
             pre @ (join ''.'' (map segment_text (issue_path i)) @ '': '' @ issue_message i) @ post"
proof -
  show "executeTool tool input =
           Inr \<lparr>content = [TextContent (''Validation error: '' @ join '', '' (map issue_text es))],
                isError = Some True\<rparr>"
    using assms by (simp add: executeTool_def)
  show "\<forall>i \<in> set es. \<exists>pre post.
           ''Validation error: '' @ join '', '' (map issue_text es) =
             pre @ (join ''.'' (map segment_text (issue_path i)) @ '': '' @ issue_message i) @ post"
  proof
    fix i assume "i \<in> set es"
    then have "issue_text i \<in> set (map issue_text es)" by simp
    from join_contains [OF this, of "'', ''"] obtain pre post
      where "join '', '' (map issue_text es) = pre @ issue_text i @ post" by blast
    then have "''Validation error: '' @ join '', '' (map issue_text es)
                 = (''Validation error: '' @ pre) @ issue_text i @ post" by simp
    then show "\<exists>pre post. ''Validation error: '' @ join '', '' (map issue_text es) =
             pre @ (join ''.'' (map segment_text (issue_path i)) @ '': '' @ issue_message i) @ post"
      unfolding issue_text_def by (intro exI)
  qed
qed

lemma executeTool_passes_result:
  "schema tool input = Inr (ParseSuccess data) \<Longrightarrow> handler tool data = Inr result \<Longrightarrow>
   executeTool tool input = Inr result"
  by (simp add: executeTool_def)

lemma executeTool_catches_handler:
  "schema tool input = Inr (ParseSuccess data) \<Longrightarrow> handler tool data = Inl error \<Longrightarrow>
   executeTool tool input =
     Inr \<lparr>content = [TextContent (''Tool execution error: '' @ message_or error ''Unknown error'')],
          isError = Some True\<rparr>"
  by (simp add: executeTool_def)

lemma executeTool_rejects_iff:
  "executeTool tool input = Inl err \<longleftrightarrow>
     schema tool input = Inl err
     \<or> (\<exists>e. schema tool input = Inr (ParseFailure e) \<and> errors e = None
              \<and> err = cannot_read ''undefined'' ''map'')"
proof (cases "schema tool input")
  case (Inl thrown_error)
  then show ?thesis by (simp add: executeTool_def)
next
  case (Inr parsed)
  show ?thesis
  proof (cases parsed)
    case (ParseSuccess data)
    then show ?thesis using Inr by (cases "handler tool data") (simp_all add: executeTool_def)
  next
    case (ParseFailure e)
    then show ?thesis using Inr by (cases "errors e") (auto simp: executeTool_def)
  qed
qed

lemma ex_divider_schema_bad:
  "schema ex_divider ex_bad_input =
     Inr (ParseFailure \<lparr>errors = Some [\<lparr>issue_path = [Key ''a''], issue_message = ''Expected number''\<rparr>],
                        issues = [\<lparr>issue_path = [Key ''a''], issue_message = ''Expected number''\<rparr>]\<rparr>)"
  by (simp add: ex_divider_def ex_bad_input_def number_issues_def get_prop_def)

lemma ex_divider_zod4_schema_bad:
  "schema ex_divider_zod4 ex_bad_input =
     Inr (ParseFailure \<lparr>errors = None,
                        issues = [\<lparr>issue_path = [Key ''a''], issue_message = ''Expected number''\<rparr>]\<rparr>)"
  by (simp add: ex_divider_zod4_def ex_bad_input_def number_issues_def get_prop_def)

lemma ex_divider_schema_good: "schema ex_divider ex_good_input = Inr (ParseSuccess ex_good_input)"
  by (simp add: ex_divider_def ex_good_input_def number_issues_def get_prop_def)

lemma ex_divider_schema_zero: "schema ex_divider ex_zero_input = Inr (ParseSuccess ex_zero_input)"
  by (simp add: ex_divider_def ex_zero_input_def number_issues_def get_prop_def)

lemma ex_divider_handler_good:
  "handler ex_divider ex_good_input = Inr \<lparr>content = [TextContent ''done''], isError = None\<rparr>"
  by (simp add: ex_divider_def divider_handler_def ex_good_input_def get_prop_def)

lemma ex_divider_handler_zero:
  "handler ex_divider ex_zero_input = Inl (NativeError ''Something went wrong'')"
  by (simp add: ex_divider_def divider_handler_def ex_zero_input_def get_prop_def)

lemma ex_divider_results:
  "executeTool ex_divider ex_bad_input =
     Inr \<lparr>content = [TextContent ''Validation error: a: Expected number''], isError = Some True\<rparr>"
  "executeTool ex_divider ex_good_input = Inr \<lparr>content = [TextContent ''done''], isError = None\<rparr>"
  "executeTool ex_divider ex_zero_input =
     Inr \<lparr>content = [TextContent ''Tool execution error: Something went wrong''], isError = Some True\<rparr>"
proof -
  show "executeTool ex_divider ex_bad_input =
     Inr \<lparr>content = [TextContent ''Validation error: a: Expected number''], isError = Some True\<rparr>"
    using executeTool_validation_error(1) [OF ex_divider_schema_bad] by (simp add: issue_text_def)
  show "executeTool ex_divider ex_good_input = Inr \<lparr>content = [TextContent ''done''], isError = None\<rparr>"
    by (rule executeTool_passes_result [OF ex_divider_schema_good ex_divider_handler_good])
  show "executeTool ex_divider ex_zero_input =
     Inr \<lparr>content = [TextContent ''Tool execution error: Something went wrong''], isError = Some True\<rparr>"
    using executeTool_catches_handler [OF ex_divider_schema_zero ex_divider_handler_zero] by simp
qed

text \<open>
  C5 holds of a tool whose schema reports a failure as Zod 3 does, with the issues under
  \<^verbatim>\<open>error.errors\<close>: a failing input gives a result with \<^verbatim>\<open>isError: true\<close> that lists every
  issue as \<^verbatim>\<open>path: reason\<close>, a valid input gives the handler's result unchanged, and a
  throwing handler gives a result with \<^verbatim>\<open>isError: true\<close> that ends with the thrown message.
  It fails for a tool whose schema is a Zod 4 schema, which the SDK says it supports: the
  \<^verbatim>\<open>ZodError\<close> of Zod 4 has no \<^verbatim>\<open>errors\<close>, so \<^verbatim>\<open>parseResult.error.errors.map\<close>, which is
  outside the \<^verbatim>\<open>try\<close>, throws a \<^verbatim>\<open>TypeError\<close> and \<^verbatim>\<open>executeTool\<close> rejects on the very input
  for which it should report a validation error.
\<close>

theorem executeTool_rejects_on_zod4_validation_failure:
  "schema ex_divider_zod4 ex_bad_input =
     Inr (ParseFailure \<lparr>errors = None,
                        issues = [\<lparr>issue_path = [Key ''a''], issue_message = ''Expected number''\<rparr>]\<rparr>)
   \<and> executeTool ex_divider_zod4 ex_bad_input = Inl (cannot_read ''undefined'' ''map'')
   \<and> cannot_read ''undefined'' ''map''
        = NativeError (''Cannot read properties of undefined (reading '' @ [CHR 0x27] @ ''map''
                         @ [CHR 0x27] @ '')'')
   \<and> executeTool ex_divider ex_bad_input =
        Inr \<lparr>content = [TextContent ''Validation error: a: Expected number''], isError = Some True\<rparr>"
proof -
  have a: "executeTool ex_divider_zod4 ex_bad_input = Inl (cannot_read ''undefined'' ''map'')"
    by (simp add: executeTool_def ex_divider_zod4_schema_bad)
  have b: "cannot_read ''undefined'' ''map''
        = NativeError (''Cannot read properties of undefined (reading '' @ [CHR 0x27] @ ''map''
                         @ [CHR 0x27] @ '')'')"
    by (simp add: cannot_read_def)
  show ?thesis by (intro conjI) (rule ex_divider_zod4_schema_bad a b ex_divider_results(1))+
qed

section \<open>NDJSON parser: chunking\<close>

lemma split_first_append:
  "split_first (a @ b) =
     (let (l, ls) = split_first a; (l', ls') = split_first b
      in if ls = [] then (l @ l', ls') else (l, butlast ls @ (last ls @ l') # ls'))"
  by (induction a) (auto simp: Let_def split: prod.splits)

lemma split_first_no_newline: "newline \<notin> set s \<Longrightarrow> split_first s = (s, [])"
  by (induction s) auto

lemma split_first_parts:
  "split_first s = (l, ls) \<Longrightarrow> newline \<notin> set l \<and> (\<forall>x \<in> set ls. newline \<notin> set x)"
  by (induction s arbitrary: l ls) (auto simp: Let_def split: prod.splits if_splits)

lemma split_newline_nonempty: "split_newline s \<noteq> []"
  by (simp add: split_newline_def split: prod.splits)

lemma split_newline_no_newline: "newline \<notin> set s \<Longrightarrow> split_newline s = [s]"
  by (simp add: split_newline_def split_first_no_newline)

lemma last_split_no_newline: "newline \<notin> set (last (split_newline s))"
proof -
  obtain l ls where sf: "split_first s = (l, ls)" by (cases "split_first s")
  from split_first_parts [OF sf] show ?thesis
    using sf by (auto simp: split_newline_def)
qed

lemma split_newline_append:
  "split_newline (a @ b) =
     butlast (split_newline a) @ split_newline (last (split_newline a) @ b)"
proof -
  obtain l ls where sa: "split_first a = (l, ls)" by (cases "split_first a")
  obtain l' ls' where sb: "split_first b = (l', ls')" by (cases "split_first b")
  note pa = split_first_parts [OF sa]
  show ?thesis
  proof (cases "ls = []")
    case True
    have "split_first l = (l, [])" using pa by (simp add: split_first_no_newline)
    then have "split_first (l @ b) = (l @ l', ls')" using sb by (simp add: split_first_append)
    moreover have "split_first (a @ b) = (l @ l', ls')"
      using sa sb True by (simp add: split_first_append)
    ultimately show ?thesis using sa True by (simp add: split_newline_def)
  next
    case False
    then have "last ls \<in> set ls" by simp
    then have "split_first (last ls) = (last ls, [])"
      using pa by (simp add: split_first_no_newline)
    then have "split_first (last ls @ b) = (last ls @ l', ls')"
      using sb by (simp add: split_first_append)
    moreover have "split_first (a @ b) = (l, butlast ls @ (last ls @ l') # ls')"
      using sa sb False by (simp add: split_first_append)
    ultimately show ?thesis using sa False by (simp add: split_newline_def)
  qed
qed

lemma decode_append:
  "decode step d (a @ b) =
     (let (t, d') = decode step d a; (t', d'') = decode step d' b in (t @ t', d''))"
  by (induction a arbitrary: d) (auto simp: Let_def split: prod.splits)

lemma parse_lines_append:
  "parse_lines jp (xs @ ys) =
     (case parse_lines jp xs of
        (ms, Some err) \<Rightarrow> (ms, Some err)
      | (ms, None) \<Rightarrow> (case parse_lines jp ys of (ms', r) \<Rightarrow> (ms @ ms', r)))"
proof (induction xs)
  case Nil
  then show ?case by (simp split: prod.splits)
next
  case (Cons x xs)
  show ?case
  proof (cases "parseLine jp x")
    case (Inl err)
    then show ?thesis by simp
  next
    case (Inr r)
    show ?thesis
    proof (cases r)
      case None
      then show ?thesis using Inr Cons by simp
    next
      case (Some m)
      obtain ms e where px: "parse_lines jp xs = (ms, e)" by (cases "parse_lines jp xs")
      obtain ms' e' where py: "parse_lines jp ys = (ms', e')" by (cases "parse_lines jp ys")
      show ?thesis using Inr Some Cons px py by (cases e) simp_all
    qed
  qed
qed

lemma parseLine_blank: "trim l = [] \<Longrightarrow> parseLine jp l = Inr None"
  by (simp add: parseLine_def)

lemma parseLine_None_iff: "parseLine jp l = Inr None \<longleftrightarrow> trim l = []"
  by (auto simp: parseLine_def Let_def split: sum.splits)

lemma stream_loop_eq:
  "newline \<notin> set buffer \<Longrightarrow>
   stream_loop jp step d buffer chunks =
     parse_lines jp (split_newline (buffer @ fst (decode step d (concat chunks))))"
proof (induction chunks arbitrary: d buffer)
  case Nil
  have r: "split_newline buffer = [buffer]" using Nil by (rule split_newline_no_newline)
  show ?case
  proof (cases "trim buffer = []")
    case True
    then show ?thesis by (simp add: r parseLine_blank)
  next
    case False
    then show ?thesis by (simp add: r split: sum.splits option.splits)
  qed
next
  case (Cons v rest)
  obtain t d' where dv: "decode step d v = (t, d')" by (cases "decode step d v")
  obtain t' d'' where dr: "decode step d' (concat rest) = (t', d'')"
    by (cases "decode step d' (concat rest)")
  let ?b1 = "buffer @ t"
  let ?ls = "split_newline ?b1"
  have ne: "?ls \<noteq> []" by (rule split_newline_nonempty)
  have p: "pop ?ls = (Some (last ?ls), butlast ?ls)" using ne by (simp add: pop_def)
  have nn: "newline \<notin> set (last ?ls)" by (rule last_split_no_newline)
  have ih: "stream_loop jp step d' (last ?ls) rest =
      parse_lines jp (split_newline (last ?ls @ t'))"
    using Cons.IH [OF nn, of d'] dr by simp
  have lhs: "stream_loop jp step d buffer (v # rest) =
      (case parse_lines jp (butlast ?ls) of
         (ms, Some err) \<Rightarrow> (ms, Some err)
       | (ms, None) \<Rightarrow> (case parse_lines jp (split_newline (last ?ls @ t')) of (ms', r) \<Rightarrow> (ms @ ms', r)))"
    by (simp add: dv p ih Let_def)
  have e: "buffer @ fst (decode step d (concat (v # rest))) = ?b1 @ t'"
    using dv dr by (simp add: decode_append)
  have rhs: "parse_lines jp (split_newline (buffer @ fst (decode step d (concat (v # rest))))) =
      parse_lines jp (butlast ?ls @ split_newline (last ?ls @ t'))"
    by (simp only: e split_newline_append [of ?b1 "t'"])
  show ?case unfolding lhs rhs parse_lines_append ..
qed

lemma parseNDJSONStream_chunk_independent:
  "parseNDJSONStream jp step d0 chunks =
     parseNDJSONString jp (fst (decode step d0 (concat chunks)))"
  by (simp add: parseNDJSONStream_def parseNDJSONString_def stream_loop_eq)

lemma split_first_join:
  "\<forall>l \<in> set (x # xs). newline \<notin> set l \<Longrightarrow>
   split_first (join [newline] (x # xs)) = (x, xs)"
proof (induction xs arbitrary: x)
  case Nil
  then show ?case by (simp add: split_first_no_newline)
next
  case (Cons y ys)
  then have "split_first (join [newline] (y # ys)) = (y, ys)" by simp
  moreover have "split_first x = (x, [])" using Cons.prems by (simp add: split_first_no_newline)
  ultimately show ?case
    by (simp add: split_first_append)
qed

lemma split_newline_wire_text:
  "lines \<noteq> [] \<Longrightarrow> \<forall>l \<in> set lines. newline \<notin> set l \<Longrightarrow>
   split_newline (wire_text lines) = lines"
  by (cases lines) (simp_all add: split_newline_def wire_text_def split_first_join)

lemma parse_lines_all_good:
  "\<forall>l \<in> set lines. trim l = [] \<or> (\<exists>m. parseLine jp l = Inr (Some m)) \<Longrightarrow>
   parse_lines jp lines = (line_messages jp lines, None)"
proof (induction lines)
  case Nil
  then show ?case by (simp add: line_messages_def)
next
  case (Cons l ls)
  then have ih: "parse_lines jp ls = (line_messages jp ls, None)" by simp
  from Cons.prems have "trim l = [] \<or> (\<exists>m. parseLine jp l = Inr (Some m))" by simp
  then show ?case
  proof
    assume "trim l = []"
    then have "parseLine jp l = Inr None" by (rule parseLine_blank)
    then show ?thesis using ih by (simp add: line_messages_def)
  next
    assume "\<exists>m. parseLine jp l = Inr (Some m)"
    then obtain m where "parseLine jp l = Inr (Some m)" ..
    then show ?thesis using ih by (simp add: line_messages_def)
  qed
qed

lemma length_line_messages:
  "\<forall>l \<in> set lines. trim l = [] \<or> (\<exists>m. parseLine jp l = Inr (Some m)) \<Longrightarrow>
   length (line_messages jp lines) = length (filter (\<lambda>l. trim l \<noteq> []) lines)"
proof (induction lines)
  case Nil
  then show ?case by (simp add: line_messages_def)
next
  case (Cons l ls)
  then have ih: "length (line_messages jp ls) = length (filter (\<lambda>l. trim l \<noteq> []) ls)" by simp
  from Cons.prems have "trim l = [] \<or> (\<exists>m. parseLine jp l = Inr (Some m))" by simp
  then show ?case
  proof
    assume b: "trim l = []"
    then have "parseLine jp l = Inr None" by (rule parseLine_blank)
    then show ?thesis using ih b by (simp add: line_messages_def)
  next
    assume "\<exists>m. parseLine jp l = Inr (Some m)"
    then obtain m where m: "parseLine jp l = Inr (Some m)" ..
    then have "trim l \<noteq> []" using parseLine_blank [of l jp] by auto
    then show ?thesis using ih m by (simp add: line_messages_def)
  qed
qed

section \<open>NDJSON parser: the claims\<close>

text \<open>
  C3. Let the decoded text of a byte stream be a sequence of lines joined by newlines, each
  line blank or a valid NDJSON message. Then for every way of cutting the bytes into
  read chunks (in the middle of a line, with or without a final newline)
  \<^verbatim>\<open>parseNDJSONStream\<close> yields exactly the messages of the non-blank lines, in line order, and
  throws nothing: with \<open>N\<close> non-blank lines, \<open>N\<close> messages.
\<close>

theorem parseNDJSONStream_messages_in_order:
  assumes "fst (decode step d0 (concat chunks)) = wire_text lines"
      and "\<forall>l \<in> set lines. newline \<notin> set l
             \<and> (trim l = [] \<or> (\<exists>m. parseLine json_parse l = Inr (Some m)))"
  shows "parseNDJSONStream json_parse step d0 chunks = (line_messages json_parse lines, None)
       \<and> length (line_messages json_parse lines) = length (filter (\<lambda>l. trim l \<noteq> []) lines)"
proof
  have good: "\<forall>l \<in> set lines. trim l = [] \<or> (\<exists>m. parseLine json_parse l = Inr (Some m))"
    using assms(2) by simp
  show "length (line_messages json_parse lines) = length (filter (\<lambda>l. trim l \<noteq> []) lines)"
    by (rule length_line_messages [OF good])
  have s: "parseNDJSONStream json_parse step d0 chunks =
             parse_lines json_parse (split_newline (wire_text lines))"
    using assms(1) by (simp add: parseNDJSONStream_chunk_independent parseNDJSONString_def)
  show "parseNDJSONStream json_parse step d0 chunks = (line_messages json_parse lines, None)"
  proof (cases "lines = []")
    case True
    then have "split_newline (wire_text lines) = [[]]"
      by (simp add: wire_text_def split_newline_def)
    moreover have "trim [] = []" by (simp add: trim_def)
    ultimately show ?thesis
      using s True by (simp add: parseLine_blank line_messages_def)
  next
    case False
    have "split_newline (wire_text lines) = lines"
      using False assms(2) by (simp add: split_newline_wire_text)
    then show ?thesis using s parse_lines_all_good [OF good] by simp
  qed
qed

lemma trim_system: "trim (ascii ''{\"type\":\"system\"}'') = ascii ''{\"type\":\"system\"}''"
  by (simp add: ascii_def trim_def is_space_def)

lemma trim_result: "trim (ascii ''{\"type\":\"result\"}'') = ascii ''{\"type\":\"result\"}''"
  by (simp add: ascii_def trim_def is_space_def)

lemma trim_number: "trim (ascii ''  {\"type\":42} '') = ascii ''{\"type\":42}''"
  by (simp add: ascii_def trim_def is_space_def)

lemma parse_system:
  "parseLine ex_json_parse (ascii ''{\"type\":\"system\"}'') = Inr (Some (JObject [(''type'', JString ''system'')]))"
  unfolding parseLine_def trim_system by (simp add: ex_json_parse_def ascii_def)

lemma parse_result:
  "parseLine ex_json_parse (ascii ''{\"type\":\"result\"}'') = Inr (Some (JObject [(''type'', JString ''result'')]))"
  unfolding parseLine_def trim_result by (simp add: ex_json_parse_def ascii_def)

theorem parseNDJSONStream_messages_in_order_witness:
  "fst (decode ex_step () (concat ex_chunks)) = wire_text ex_lines
   \<and> list_all (\<lambda>l. newline \<notin> set l
         \<and> (trim l = [] \<or> (\<exists>m. parseLine ex_json_parse l = Inr (Some m)))) ex_lines
   \<and> parseNDJSONStream ex_json_parse ex_step () ex_chunks =
       ([JObject [(''type'', JString ''system'')], JObject [(''type'', JString ''result'')]], None)"
proof -
  have h1: "fst (decode ex_step () (concat ex_chunks)) = wire_text ex_lines"
    by (simp add: ex_chunks_def ex_lines_def wire_text_def ex_step_def ascii_def ascii_bytes_def
          newline_def)
  have n: "\<forall>l \<in> set ex_lines. newline \<notin> set l"
    by (simp add: ex_lines_def ascii_def newline_def)
  have g: "\<forall>l \<in> set ex_lines. trim l = [] \<or> (\<exists>m. parseLine ex_json_parse l = Inr (Some m))"
    by (simp add: ex_lines_def parse_system parse_result trim_def)
  have h2: "\<forall>l \<in> set ex_lines. newline \<notin> set l
         \<and> (trim l = [] \<or> (\<exists>m. parseLine ex_json_parse l = Inr (Some m)))"
    using n g by blast
  have lm: "line_messages ex_json_parse ex_lines =
      [JObject [(''type'', JString ''system'')], JObject [(''type'', JString ''result'')]]"
    by (simp add: line_messages_def ex_lines_def parse_system parse_result parseLine_blank trim_def)
  from parseNDJSONStream_messages_in_order [OF h1 h2]
  have "parseNDJSONStream ex_json_parse ex_step () ex_chunks =
          (line_messages ex_json_parse ex_lines, None)" by (rule conjunct1)
  then have "parseNDJSONStream ex_json_parse ex_step () ex_chunks =
       ([JObject [(''type'', JString ''system'')], JObject [(''type'', JString ''result'')]], None)"
    by (simp only: lm)
  moreover have "list_all (\<lambda>l. newline \<notin> set l
         \<and> (trim l = [] \<or> (\<exists>m. parseLine ex_json_parse l = Inr (Some m)))) ex_lines"
    using h2 by (simp only: list_all_iff)
  ultimately show ?thesis using h1 by (intro conjI)
qed

text \<open>
  C9. The line parser accepts more than the transport's gate: whenever the trimmed line
  is not empty and parses to an object with a \<^verbatim>\<open>type\<close> key, \<^verbatim>\<open>parseLine\<close> returns that
  object, whatever the value of \<^verbatim>\<open>type\<close>; if that value is not a string of the closed
  set, \<^verbatim>\<open>SandboxTransport.enrichMessage\<close> rejects the same object. (\<^verbatim>\<open>JSON.parse\<close> rejects
  the empty string, so a trimmed line that parses is never empty.)
\<close>

theorem parseLine_accepts_any_type:
  assumes "trim line \<noteq> []"
      and "json_parse (trim line) = Inr (JObject kvs)"
      and "''type'' \<in> fst ` set kvs"
  shows "parseLine json_parse line = Inr (Some (JObject kvs))
       \<and> (\<not> (\<exists>t. map_of kvs ''type'' = Some (JString t) \<and> t \<in> VALID_MESSAGE_TYPES) \<longrightarrow>
            enrichMessage stringify this e (JObject kvs) =
              Inl (ParseError ''Invalid message structure: missing or invalid 'type' field''
                     (Some (stringify (JObject kvs)))))"
proof
  show "parseLine json_parse line = Inr (Some (JObject kvs))"
    using assms by (simp add: parseLine_def)
  show "\<not> (\<exists>t. map_of kvs ''type'' = Some (JString t) \<and> t \<in> VALID_MESSAGE_TYPES) \<longrightarrow>
            enrichMessage stringify this e (JObject kvs) =
              Inl (ParseError ''Invalid message structure: missing or invalid 'type' field''
                     (Some (stringify (JObject kvs))))"
  proof
    assume "\<not> (\<exists>t. map_of kvs ''type'' = Some (JString t) \<and> t \<in> VALID_MESSAGE_TYPES)"
    then have "\<not> isValidMessageStructure (JObject kvs)"
      unfolding isValid_iff by simp
    then show "enrichMessage stringify this e (JObject kvs) =
              Inl (ParseError ''Invalid message structure: missing or invalid 'type' field''
                     (Some (stringify (JObject kvs))))"
      by (simp add: enrich_invalid structure_error_def)
  qed
qed

theorem parseLine_accepts_any_type_witness:
  "trim (ascii ''  {\"type\":42} '') \<noteq> []
   \<and> ex_json_parse (trim (ascii ''  {\"type\":42} '')) = Inr (JObject [(''type'', JNum 42)])
   \<and> ''type'' \<in> fst ` set [(''type'', JNum 42)]
   \<and> parseLine ex_json_parse (ascii ''  {\"type\":42} '') = Inr (Some (JObject [(''type'', JNum 42)]))
   \<and> enrichMessage (\<lambda>v. ascii ''{\"type\":42}'') ex_transport ex_entropy (JObject [(''type'', JNum 42)]) =
       Inl (ParseError ''Invalid message structure: missing or invalid 'type' field''
              (Some (ascii ''{\"type\":42}'')))"
proof -
  have h1: "trim (ascii ''  {\"type\":42} '') \<noteq> []"
    unfolding trim_number by (simp add: ascii_def)
  have h2: "ex_json_parse (trim (ascii ''  {\"type\":42} '')) = Inr (JObject [(''type'', JNum 42)])"
    unfolding trim_number by (simp add: ex_json_parse_def ascii_def)
  have h3: "''type'' \<in> fst ` set [(''type'', JNum 42)]" by simp
  have h4: "\<not> (\<exists>t. map_of [(''type'', JNum 42)] ''type'' = Some (JString t) \<and> t \<in> VALID_MESSAGE_TYPES)"
    by simp
  note t = parseLine_accepts_any_type [where line = "ascii ''  {\"type\":42} ''"
      and json_parse = ex_json_parse and kvs = "[(''type'', JNum 42)]"
      and stringify = "\<lambda>v. ascii ''{\"type\":42}''" and this = ex_transport and e = ex_entropy,
      OF h1 h2 h3]
  from t have a: "parseLine ex_json_parse (ascii ''  {\"type\":42} '') = Inr (Some (JObject [(''type'', JNum 42)]))"
    by (rule conjunct1)
  from t h4 have b: "enrichMessage (\<lambda>v. ascii ''{\"type\":42}'') ex_transport ex_entropy (JObject [(''type'', JNum 42)]) =
       Inl (ParseError ''Invalid message structure: missing or invalid 'type' field''
              (Some (ascii ''{\"type\":42}'')))"
    by (elim conjE impE) 
  show ?thesis by (intro conjI) (rule h1 h2 h3 a b)+
qed

section \<open>Query orchestrator: the turn loop\<close>

lemma resources_emit: "resources (emit w m st) = resources st"
  by (simp add: resources_def emit_def)

lemma resources_push: "resources (st\<lparr>messages := ms\<rparr>) = resources st"
  by (simp add: resources_def)

lemma resources_stream_messages: "resources (stream_messages w sid ms st) = resources st"
  by (induction ms arbitrary: st) (simp_all add: Let_def resources_emit resources_push)

lemma resources_startSession: "resources (fst (startSession w n p st)) = resources st"
  by (simp add: startSession_def resources_def)

lemma resources_turn_body:
  "resources (fst (turn_body rt args w sid n history p st)) = resources st"
proof -
  let ?full = "if history \<noteq> [] then buildConversationPrompt history p else p"
  obtain st1 stream failure where ss: "startSession w n ?full st = (st1, stream, failure)"
    by (cases "startSession w n ?full st")
  have r1: "resources st1 = resources st"
    using resources_startSession [of w n ?full st] ss by simp
  have f: "fst (turn_body rt args w sid n history p st) = stream_messages w sid stream st1"
    unfolding turn_body_def Let_def ss
    by (simp split: option.splits sum.splits)
  show ?thesis unfolding f by (simp add: resources_stream_messages r1)
qed

lemma turn_loop_not_entered:
  "\<not> (int turn < maxTurns_of args \<and> \<not> isInterrupted st) \<Longrightarrow>
   turn_loop rt args w sid turn history p st = (st, turn, None)"
  by (subst turn_loop.simps) (rule if_not_P)

lemma turn_loop_entered:
  "int turn < maxTurns_of args \<Longrightarrow> \<not> isInterrupted st \<Longrightarrow>
   turn_loop rt args w sid turn history p st =
     (case turn_body rt args w sid (Suc turn) history p st of
        (st2, Break) \<Rightarrow> (st2, Suc turn, None)
      | (st2, Throw err) \<Rightarrow> (st2, Suc turn, Some err)
      | (st2, Next history1) \<Rightarrow>
          turn_loop rt args w sid (Suc turn) history1 continuation_prompt st2)"
  by (subst turn_loop.simps) (rule if_P, rule conjI)

lemma resources_turn_loop:
  "resources (fst (turn_loop rt args w sid turn history p st)) = resources st"
proof (induction rt args w sid turn history p st rule: turn_loop.induct)
  case (1 rt args w sid turn history currentPrompt st)
  show ?case
  proof (cases "int turn < maxTurns_of args \<and> \<not> isInterrupted st")
    case False
    then show ?thesis by (simp add: turn_loop_not_entered)
  next
    case go: True
    obtain st2 e where tb: "turn_body rt args w sid (Suc turn) history currentPrompt st = (st2, e)"
      by (cases "turn_body rt args w sid (Suc turn) history currentPrompt st")
    have r2: "resources st2 = resources st"
      using resources_turn_body [of rt args w sid "Suc turn" history currentPrompt st] tb by simp
    have u: "turn_loop rt args w sid turn history currentPrompt st =
        (case e of Break \<Rightarrow> (st2, Suc turn, None) | Throw err \<Rightarrow> (st2, Suc turn, Some err)
         | Next history1 \<Rightarrow> turn_loop rt args w sid (Suc turn) history1 continuation_prompt st2)"
      using go tb turn_loop_entered [of turn args st rt w sid history currentPrompt] by simp
    show ?thesis
    proof (cases e)
      case Break
      then show ?thesis unfolding u using r2 by simp
    next
      case (Throw err)
      then show ?thesis unfolding u using r2 by simp
    next
      case (Next h1)
      have "resources (fst (turn_loop rt args w sid (Suc turn) h1 continuation_prompt st2)) = resources st2"
        using "1.IH" [OF go tb [symmetric] Next] .
      then show ?thesis unfolding u using r2 Next by simp
    qed
  qed
qed

text \<open>The turn counter.\<close>

lemma turn_loop_bound:
  "fst (snd (turn_loop rt args w sid turn history p st)) \<le> max turn (nat (maxTurns_of args))"
proof (induction rt args w sid turn history p st rule: turn_loop.induct)
  case (1 rt args w sid turn history currentPrompt st)
  show ?case
  proof (cases "int turn < maxTurns_of args \<and> \<not> isInterrupted st")
    case False
    then show ?thesis by (simp add: turn_loop_not_entered)
  next
    case go: True
    obtain st2 e where tb: "turn_body rt args w sid (Suc turn) history currentPrompt st = (st2, e)"
      by (cases "turn_body rt args w sid (Suc turn) history currentPrompt st")
    have u: "turn_loop rt args w sid turn history currentPrompt st =
        (case e of Break \<Rightarrow> (st2, Suc turn, None) | Throw err \<Rightarrow> (st2, Suc turn, Some err)
         | Next history1 \<Rightarrow> turn_loop rt args w sid (Suc turn) history1 continuation_prompt st2)"
      using go tb turn_loop_entered [of turn args st rt w sid history currentPrompt] by simp
    have lt: "Suc turn \<le> nat (maxTurns_of args)" using go by linarith
    show ?thesis
    proof (cases e)
      case Break
      then show ?thesis unfolding u using lt by simp
    next
      case (Throw err)
      then show ?thesis unfolding u using lt by simp
    next
      case (Next h1)
      have "fst (snd (turn_loop rt args w sid (Suc turn) h1 continuation_prompt st2))
              \<le> max (Suc turn) (nat (maxTurns_of args))"
        using "1.IH" [OF go tb [symmetric] Next] .
      then show ?thesis unfolding u using lt Next by simp
    qed
  qed
qed

lemma turn_body_no_tools:
  "tools_of args = [] \<Longrightarrow> snd (turn_body rt args w sid n history p st) \<noteq> Next h"
  unfolding turn_body_def Let_def
  by (simp split: prod.splits option.splits sum.splits)

lemma turn_loop_no_tools_entered:
  assumes "tools_of args = []" "int turn < maxTurns_of args" "\<not> isInterrupted st"
  shows "fst (snd (turn_loop rt args w sid turn history p st)) = Suc turn"
proof -
  obtain st2 e where tb: "turn_body rt args w sid (Suc turn) history p st = (st2, e)"
    by (cases "turn_body rt args w sid (Suc turn) history p st")
  have u: "turn_loop rt args w sid turn history p st =
        (case e of Break \<Rightarrow> (st2, Suc turn, None) | Throw err \<Rightarrow> (st2, Suc turn, Some err)
         | Next history1 \<Rightarrow> turn_loop rt args w sid (Suc turn) history1 continuation_prompt st2)"
    using assms(2,3) tb turn_loop_entered [of turn args st rt w sid history p] by simp
  have "\<And>h. e \<noteq> Next h"
    using turn_body_no_tools [OF assms(1), of rt w sid "Suc turn" history p st] tb by simp
  then show ?thesis unfolding u by (cases e) auto
qed

lemma turn_loop_no_tools_le:
  assumes "tools_of args = []"
  shows "fst (snd (turn_loop rt args w sid 0 history p st)) \<le> 1"
proof (cases "int 0 < maxTurns_of args \<and> \<not> isInterrupted st")
  case True
  then show ?thesis using turn_loop_no_tools_entered [OF assms, of 0 st rt w sid history p] by simp
next
  case False
  then show ?thesis by (simp add: turn_loop_not_entered)
qed

lemma resources_loop_entry: "resources (loop_entry args w sid st) = resources st"
  by (simp add: loop_entry_def Let_def resources_push resources_emit)

lemma resources_after_loop:
  "turn_loop rt args w sid 0 [] p (loop_entry args w sid st1) = (st4, n, failure) \<Longrightarrow>
   resources st4 = resources st1"
  using resources_turn_loop [of rt args w sid 0 "[]" p "loop_entry args w sid st1"]
  by (simp add: resources_loop_entry)

lemma turns_run_failed: "turns (run_failed rt args w st n err) = n"
  by (simp add: run_failed_def)

lemma turns_run_session:
  "turns (run_session rt args w sid st1) =
     fst (snd (turn_loop rt args w sid 0 [] (prompt args) (loop_entry args w sid st1)))"
proof -
  obtain st4 n failure
    where l: "turn_loop rt args w sid 0 [] (prompt args) (loop_entry args w sid st1) = (st4, n, failure)"
    by (cases "turn_loop rt args w sid 0 [] (prompt args) (loop_entry args w sid st1)")
  show ?thesis unfolding run_session_def l
    by (cases failure) (simp_all add: turns_run_failed Let_def)
qed

lemma turns_run:
  "turns (run rt args w sid) = 0
   \<or> turns (run rt args w sid) =
        fst (snd (turn_loop rt args w sid 0 [] (prompt args)
                    (loop_entry args w sid (fst (after_connect args w)))))"
proof -
  obtain st1 cerr where c: "after_connect args w = (st1, cerr)" by (cases "after_connect args w")
  show ?thesis
  proof (cases cerr)
    case (Some err)
    then show ?thesis unfolding run_def c by (simp add: turns_run_failed)
  next
    case None
    show ?thesis
    proof (cases "setup_outcome w")
      case (Some err)
      then show ?thesis unfolding run_def c using None by (simp add: turns_run_failed)
    next
      case n2: None
      then show ?thesis unfolding run_def c using None by (simp add: turns_run_session)
    qed
  qed
qed

lemma turns_run_bound: "turns (run rt args w sid) \<le> nat (maxTurns_of args)"
  using turns_run [of rt args w sid]
    turn_loop_bound [of rt args w sid 0 "[]" "prompt args"
      "loop_entry args w sid (fst (after_connect args w))"]
  by auto

lemma turns_run_no_tools: "tools_of args = [] \<Longrightarrow> turns (run rt args w sid) \<le> 1"
  using turns_run [of rt args w sid]
    turn_loop_no_tools_le [of args rt w sid "[]" "prompt args"
      "loop_entry args w sid (fst (after_connect args w))"]
  by auto



section \<open>The sample runs\<close>

lemma ex_args_facts:
  "tools_of ex_args = []" "maxTurns_of ex_args = 10"
  "tools_of ex_args_zero_turns = []" "maxTurns_of ex_args_zero_turns = 0"
  "maxTurns_of ex_args_one_turn = 1" "tools_of ex_args_one_turn = [ex_divider]"
  by (simp_all add: tools_of_def maxTurns_of_def ex_args_def ex_args_zero_turns_def
        ex_args_one_turn_def)

lemma ex_enrich_assistant:
  "QueryImpl_enrichMessage sid e ex_assistant = ex_assistant"
  by (simp add: QueryImpl_enrichMessage_def ex_assistant_def)

lemma ex_loop_entry_facts:
  "messages (loop_entry args ex_world sid ex_connected) = [initMessage args ex_world sid]"
  "\<not> isInterrupted (loop_entry args ex_world sid ex_connected)"
  "resources (loop_entry args ex_world sid ex_connected) = resources ex_connected"
  by (simp_all add: loop_entry_def Let_def emit_def ex_connected_def initial_state_def ex_world_def
        resources_def)

lemma ex_connected_resources:
  "resources ex_connected = (Some 1, True, None, [Created 1], None, [])"
  by (simp add: resources_def ex_connected_def initial_state_def)

lemma ex_world_facts:
  "has_credentials ex_world" "session_outcome ex_world = (\<lambda>n p. ([ex_assistant], None))"
  "interrupt_after ex_world = None" "setup_outcome ex_world = None"
  "parseToolRequestsFromText ex_runtime = (\<lambda>txt. [])"
  by (simp_all add: ex_world_def ex_runtime_def)

lemma ex_after_connect:
  "arg_snapshotId args = None \<Longrightarrow> after_connect args ex_world = (ex_connected, None)"
  "arg_snapshotId args = None \<Longrightarrow> after_connect args ex_world_snapshot_fails = (ex_connected, None)"
  by (simp_all add: after_connect_def connect_def initial_state_def ex_world_def ex_connected_def
        ex_world_snapshot_fails_def Let_def)

lemma ex_extract_any: "extractText rt ex_assistant = Inr ''4''"
  by (simp add: extractText_def ex_assistant_def get_prop_def block_text_def)

lemma ex_assistantText_any:
  "assistantText rt [initMessage args ex_world sid, ex_assistant] = Inr ''4''"
proof -
  have a: "\<not> isAssistantMessage (initMessage args ex_world sid)"
    by (simp add: isAssistantMessage_def initMessage_def)
  have b: "isAssistantMessage ex_assistant"
    by (simp add: isAssistantMessage_def ex_assistant_def)
  show ?thesis by (simp add: assistantText_def a b ex_extract_any)
qed

text \<open>One pass through the loop body in the sample world, from the state in which the loop
  is entered: the assistant's message is streamed and its text scanned.\<close>

lemma ex_turn_body:
  "messages (fst (turn_body rt args ex_world sid n [] p (loop_entry args ex_world sid ex_connected)))
     = [initMessage args ex_world sid, ex_assistant]"
  "snd (turn_body rt args ex_world sid n [] p (loop_entry args ex_world sid ex_connected)) =
     (if parseToolRequestsFromText rt ''4'' = [] \<or> tools_of args = [] then Break
      else Next [(''assistant'', ''4''),
                 (''user'', ''Tool results:'' @ [CHR 0x0A]
                    @ join [CHR 0x0A, CHR 0x0A]
                        (run_tools rt (tools_of args) (parseToolRequestsFromText rt ''4'')))])"
proof -
  let ?st = "loop_entry args ex_world sid ex_connected"
  have c: "isConnected (transport_of ?st)" "sandbox (transport_of ?st) = Some 1"
    using ex_loop_entry_facts(3) [of args sid] ex_connected_resources
    by (simp_all add: resources_def)
  have s: "startSession ex_world n p ?st =
      (?st\<lparr>transport_of := (transport_of ?st)
               \<lparr>currentSessionId := Some (generateSessionId (entropy_at ex_world (length (yielded ?st))))\<rparr>\<rparr>,
       [ex_assistant], None)"
    using c by (simp add: startSession_def ex_world_facts)
  let ?st1 = "?st\<lparr>transport_of := (transport_of ?st)
               \<lparr>currentSessionId := Some (generateSessionId (entropy_at ex_world (length (yielded ?st))))\<rparr>\<rparr>"
  have m: "messages (stream_messages ex_world sid [ex_assistant] ?st1)
             = [initMessage args ex_world sid, ex_assistant]"
    by (simp add: Let_def emit_def ex_enrich_assistant ex_loop_entry_facts(1))
  have i: "\<not> isInterrupted (stream_messages ex_world sid [ex_assistant] ?st1)"
    using ex_loop_entry_facts(2) [of args sid]
    by (simp add: Let_def emit_def ex_world_facts)
  have t: "turn_body rt args ex_world sid n [] p ?st =
      (stream_messages ex_world sid [ex_assistant] ?st1,
       (if parseToolRequestsFromText rt ''4'' = [] \<or> tools_of args = [] then Break
        else Next [(''assistant'', ''4''),
                 (''user'', ''Tool results:'' @ [CHR 0x0A]
                    @ join [CHR 0x0A, CHR 0x0A]
                        (run_tools rt (tools_of args) (parseToolRequestsFromText rt ''4'')))]))"
    unfolding turn_body_def Let_def
    by (simp only: s if_False simp_thms split_conv i m ex_assistantText_any
          option.case sum.case) simp
  show "messages (fst (turn_body rt args ex_world sid n [] p ?st))
     = [initMessage args ex_world sid, ex_assistant]"
    unfolding t using m by simp
  show "snd (turn_body rt args ex_world sid n [] p ?st) =
     (if parseToolRequestsFromText rt ''4'' = [] \<or> tools_of args = [] then Break
      else Next [(''assistant'', ''4''),
                 (''user'', ''Tool results:'' @ [CHR 0x0A]
                    @ join [CHR 0x0A, CHR 0x0A]
                        (run_tools rt (tools_of args) (parseToolRequestsFromText rt ''4'')))])"
    unfolding t by simp
qed

lemma ex_requests:
  "parseToolRequestsFromText ex_runtime_requests ''4''
     = [\<lparr>req_tool = ''divide'', req_input = ex_good_input\<rparr>]"
  by (simp add: ex_runtime_requests_def)

lemma ex_run_tools:
  "run_tools ex_runtime_requests [ex_divider] [\<lparr>req_tool = ''divide'', req_input = ex_good_input\<rparr>]
     = [''Tool '' @ [CHR 0x22] @ ''divide'' @ [CHR 0x22] @ '' result:'' @ [CHR 0x0A] @ ''done'']"
proof -
  have n: "name ex_divider = ''divide''" by (simp add: ex_divider_def)
  have m: "toolMap [ex_divider] ''divide'' = Some ex_divider" by (simp add: toolMap_def n)
  show ?thesis by (simp add: m ex_divider_results(2) content_text_def)
qed

lemma ex_turn_loop_breaks:
  assumes "0 < maxTurns_of args"
      and "parseToolRequestsFromText rt ''4'' = [] \<or> tools_of args = []"
  shows "turn_loop rt args ex_world sid 0 [] p (loop_entry args ex_world sid ex_connected) =
           (fst (turn_body rt args ex_world sid (Suc 0) [] p (loop_entry args ex_world sid ex_connected)),
            1, None)"
proof -
  let ?st = "loop_entry args ex_world sid ex_connected"
  have b: "snd (turn_body rt args ex_world sid (Suc 0) [] p ?st) = Break"
    using ex_turn_body(2) [of rt args sid "Suc 0" p] assms(2) by simp
  have e: "int 0 < maxTurns_of args" using assms(1) by simp
  show ?thesis
    using turn_loop_entered [OF e ex_loop_entry_facts(2) [of args sid], of rt ex_world sid "[]" p] b
    by (simp add: split_beta)
qed

lemma ex_turn_loop_one_turn:
  "turn_loop ex_runtime_requests ex_args_one_turn ex_world sid 0 [] p
       (loop_entry ex_args_one_turn ex_world sid ex_connected) =
     (fst (turn_body ex_runtime_requests ex_args_one_turn ex_world sid (Suc 0) [] p
             (loop_entry ex_args_one_turn ex_world sid ex_connected)),
      1, None)"
proof -
  let ?st = "loop_entry ex_args_one_turn ex_world sid ex_connected"
  let ?tb = "turn_body ex_runtime_requests ex_args_one_turn ex_world sid (Suc 0) [] p ?st"
  obtain h where n: "snd ?tb = Next h"
    using ex_turn_body(2) [of ex_runtime_requests ex_args_one_turn sid "Suc 0" p]
    by (simp add: ex_requests ex_args_facts)
  have e: "int 0 < maxTurns_of ex_args_one_turn" by (simp add: ex_args_facts)
  have stop: "\<not> (int (Suc 0) < maxTurns_of ex_args_one_turn \<and> \<not> isInterrupted (fst ?tb))"
    by (simp add: ex_args_facts)
  have "turn_loop ex_runtime_requests ex_args_one_turn ex_world sid 0 [] p ?st =
      turn_loop ex_runtime_requests ex_args_one_turn ex_world sid (Suc 0) h continuation_prompt (fst ?tb)"
    using turn_loop_entered [OF e ex_loop_entry_facts(2) [of ex_args_one_turn sid],
        of ex_runtime_requests ex_world sid "[]" p] n
    by (simp add: split_beta)
  then show ?thesis by (simp add: turn_loop_not_entered [OF stop])
qed

lemma ex_args_snapshotId:
  "arg_snapshotId ex_args = None" "arg_snapshotId ex_args_one_turn = None"
  "arg_snapshotId ex_args_always = None" "arg_snapshotId ex_args_disabled = None"
  by (simp_all add: ex_args_def ex_args_one_turn_def ex_args_always_def ex_args_disabled_def)

lemma ex_run_is_session:
  "arg_snapshotId args = None \<Longrightarrow>
   run rt args ex_world sid = run_session rt args ex_world sid ex_connected"
  by (simp add: run_def ex_after_connect ex_world_facts)

lemma ex_turn_loop:
  assumes "0 < maxTurns_of args"
  shows "\<exists>st4. turn_loop ex_runtime args ex_world sid 0 [] p (loop_entry args ex_world sid ex_connected)
           = (st4, 1, None) \<and> resources st4 = resources ex_connected"
proof -
  let ?st = "loop_entry args ex_world sid ex_connected"
  have "parseToolRequestsFromText ex_runtime ''4'' = [] \<or> tools_of args = []"
    by (simp add: ex_world_facts(5))
  note l = ex_turn_loop_breaks [OF assms this, of sid p]
  have "resources (fst (turn_body ex_runtime args ex_world sid (Suc 0) [] p ?st)) = resources ex_connected"
    using resources_turn_body [of ex_runtime args ex_world sid "Suc 0" "[]" p ?st]
    by (simp add: ex_loop_entry_facts(3))
  with l show ?thesis by blast
qed

section \<open>The turn count\<close>

text \<open>
  C4, as the code has it. In the turn loop, entered without a pending interrupt: with no
  tools configured, exactly one turn is performed whenever \<^verbatim>\<open>maxTurns\<close> is at least 1 (and
  never more than one in any run); when \<^verbatim>\<open>maxTurns\<close> is 1, at most one turn is executed,
  whatever the assistant output and the tools; the loop guard \<^verbatim>\<open>turn < maxTurns\<close> also
  admits a \<^verbatim>\<open>maxTurns\<close> of 0 or less, and then no turn is performed.
\<close>

theorem turn_loop_turn_count:
  "(tools_of args = [] \<and> 1 \<le> maxTurns_of args \<and> \<not> isInterrupted st \<longrightarrow>
      fst (snd (turn_loop rt args w sid 0 history p st)) = 1)
   \<and> (tools_of args = [] \<longrightarrow>
        fst (snd (turn_loop rt args w sid 0 history p st)) \<le> 1 \<and> turns (run rt args w sid) \<le> 1)
   \<and> (maxTurns_of args = 1 \<longrightarrow>
        fst (snd (turn_loop rt args w sid 0 history p st)) \<le> 1 \<and> turns (run rt args w sid) \<le> 1)
   \<and> (maxTurns_of args \<le> 0 \<longrightarrow>
        fst (snd (turn_loop rt args w sid 0 history p st)) = 0 \<and> turns (run rt args w sid) = 0)"
proof (intro conjI impI)
  assume "tools_of args = [] \<and> 1 \<le> maxTurns_of args \<and> \<not> isInterrupted st"
  then show "fst (snd (turn_loop rt args w sid 0 history p st)) = 1"
    using turn_loop_no_tools_entered [of args 0 st rt w sid history p] by simp
next
  assume "tools_of args = []"
  then show "fst (snd (turn_loop rt args w sid 0 history p st)) \<le> 1"
    by (rule turn_loop_no_tools_le)
next
  assume "tools_of args = []"
  then show "turns (run rt args w sid) \<le> 1" by (rule turns_run_no_tools)
next
  assume "maxTurns_of args = 1"
  then show "fst (snd (turn_loop rt args w sid 0 history p st)) \<le> 1"
    using turn_loop_bound [of rt args w sid 0 history p st] by simp
next
  assume "maxTurns_of args = 1"
  then show "turns (run rt args w sid) \<le> 1"
    using turns_run_bound [of rt args w sid] by simp
next
  assume "maxTurns_of args \<le> 0"
  then show "fst (snd (turn_loop rt args w sid 0 history p st)) = 0"
    using turn_loop_bound [of rt args w sid 0 history p st] by simp
next
  assume "maxTurns_of args \<le> 0"
  then show "turns (run rt args w sid) = 0"
    using turns_run_bound [of rt args w sid] by simp
qed

theorem turn_loop_turn_count_witness:
  "tools_of ex_args = [] \<and> 1 \<le> maxTurns_of ex_args
   \<and> \<not> isInterrupted (loop_entry ex_args ex_world ''session_1_abc'' ex_connected)
   \<and> parseToolRequestsFromText ex_runtime_requests ''4''
        = [\<lparr>req_tool = ''divide'', req_input = ex_good_input\<rparr>]
   \<and> fst (snd (turn_loop ex_runtime_requests ex_args ex_world ''session_1_abc'' 0 [] ''What is 2 + 2?''
                  (loop_entry ex_args ex_world ''session_1_abc'' ex_connected))) = 1
   \<and> messages (fst (turn_loop ex_runtime_requests ex_args ex_world ''session_1_abc'' 0 []
                       ''What is 2 + 2?'' (loop_entry ex_args ex_world ''session_1_abc'' ex_connected)))
        = [initMessage ex_args ex_world ''session_1_abc'', ex_assistant]
   \<and> turns (run ex_runtime_requests ex_args ex_world ''session_1_abc'') \<le> 1
   \<and> maxTurns_of ex_args_one_turn = 1 \<and> tools_of ex_args_one_turn = [ex_divider]
   \<and> snd (turn_body ex_runtime_requests ex_args_one_turn ex_world ''session_1_abc'' 1 []
             ''What is 2 + 2?'' (loop_entry ex_args_one_turn ex_world ''session_1_abc'' ex_connected))
        = Next [(''assistant'', ''4''),
                (''user'', ''Tool results:'' @ [CHR 0x0A] @ ''Tool '' @ [CHR 0x22] @ ''divide''
                   @ [CHR 0x22] @ '' result:'' @ [CHR 0x0A] @ ''done'')]
   \<and> fst (snd (turn_loop ex_runtime_requests ex_args_one_turn ex_world ''session_1_abc'' 0 []
                  ''What is 2 + 2?''
                  (loop_entry ex_args_one_turn ex_world ''session_1_abc'' ex_connected))) \<le> 1
   \<and> turns (run ex_runtime_requests ex_args_one_turn ex_world ''session_1_abc'') \<le> 1
   \<and> turns (run ex_runtime_requests ex_args_one_turn ex_world ''session_1_abc'') = 1
   \<and> maxTurns_of ex_args_zero_turns \<le> 0
   \<and> turns (run ex_runtime_requests ex_args_zero_turns ex_world ''session_1_abc'') = 0"
proof -
  let ?sid = "''session_1_abc''"
  let ?p = "''What is 2 + 2?''"
  let ?st = "loop_entry ex_args ex_world ?sid ex_connected"
  let ?st1 = "loop_entry ex_args_one_turn ex_world ?sid ex_connected"
  note t = turn_loop_turn_count [of ex_args ?st ex_runtime_requests ex_world ?sid "[]" ?p]
  note t1 = turn_loop_turn_count [of ex_args_one_turn ?st1 ex_runtime_requests ex_world ?sid "[]" ?p]
  note t0 = turn_loop_turn_count [of ex_args_zero_turns ?st ex_runtime_requests ex_world ?sid "[]" ?p]
  have a1: "tools_of ex_args = []" by (rule ex_args_facts)
  have a2: "1 \<le> maxTurns_of ex_args" by (simp add: ex_args_facts)
  have a3: "\<not> isInterrupted ?st" by (rule ex_loop_entry_facts)
  have a: "tools_of ex_args = [] \<and> 1 \<le> maxTurns_of ex_args \<and> \<not> isInterrupted ?st"
    by (intro conjI a1 a2 a3)
  have b: "fst (snd (turn_loop ex_runtime_requests ex_args ex_world ?sid 0 [] ?p ?st)) = 1"
    by (rule mp [OF conjunct1 [OF t] a])
  have m: "messages (fst (turn_loop ex_runtime_requests ex_args ex_world ?sid 0 [] ?p ?st))
        = [initMessage ex_args ex_world ?sid, ex_assistant]"
    using ex_turn_loop_breaks [of ex_args ex_runtime_requests ?sid ?p] a1 a2
    by (simp add: ex_turn_body(1))
  have c: "turns (run ex_runtime_requests ex_args ex_world ?sid) \<le> 1"
    by (rule conjunct2 [OF mp [OF conjunct1 [OF conjunct2 [OF t]] a1]])
  have d1: "maxTurns_of ex_args_one_turn = 1" by (rule ex_args_facts)
  have d2: "tools_of ex_args_one_turn = [ex_divider]" by (rule ex_args_facts)
  have n: "snd (turn_body ex_runtime_requests ex_args_one_turn ex_world ?sid 1 [] ?p ?st1)
        = Next [(''assistant'', ''4''),
                (''user'', ''Tool results:'' @ [CHR 0x0A] @ ''Tool '' @ [CHR 0x22] @ ''divide''
                   @ [CHR 0x22] @ '' result:'' @ [CHR 0x0A] @ ''done'')]"
    using ex_turn_body(2) [of ex_runtime_requests ex_args_one_turn ?sid 1 ?p]
    by (simp add: ex_requests d2 ex_run_tools del: run_tools.simps)
  note e = mp [OF conjunct1 [OF conjunct2 [OF conjunct2 [OF t1]]] d1]
  have e1: "fst (snd (turn_loop ex_runtime_requests ex_args_one_turn ex_world ?sid 0 [] ?p ?st1)) \<le> 1"
    by (rule conjunct1 [OF e])
  have e2: "turns (run ex_runtime_requests ex_args_one_turn ex_world ?sid) \<le> 1"
    by (rule conjunct2 [OF e])
  have pr: "prompt ex_args_one_turn = ?p" by (simp add: ex_args_one_turn_def ex_args_def)
  have e3: "turns (run ex_runtime_requests ex_args_one_turn ex_world ?sid) = 1"
    unfolding ex_run_is_session [OF ex_args_snapshotId(2)] turns_run_session
    by (simp add: ex_turn_loop_one_turn)
  have f: "maxTurns_of ex_args_zero_turns \<le> 0" by (simp add: ex_args_facts)
  have g: "turns (run ex_runtime_requests ex_args_zero_turns ex_world ?sid) = 0"
    by (rule conjunct2 [OF mp [OF conjunct2 [OF conjunct2 [OF conjunct2 [OF t0]]] f]])
  show ?thesis by (intro conjI a1 a2 a3 ex_requests b m c d1 d2 n e1 e2 e3 f g)
qed

text \<open>
  C4 as stated fails: with no tools configured and \<^verbatim>\<open>maxTurns: 0\<close>, a run that connects
  and sets up without error and is never interrupted performs no turn at all.
\<close>

theorem zero_maxTurns_performs_no_turn:
  "tools_of ex_args_zero_turns = []
   \<and> snd (after_connect ex_args_zero_turns ex_world) = None
   \<and> setup_outcome ex_world = None
   \<and> interrupt_after ex_world = None
   \<and> turns (run ex_runtime ex_args_zero_turns ex_world ''session_1_abc'') = 0
   \<and> turns (run ex_runtime ex_args_zero_turns ex_world ''session_1_abc'') \<noteq> 1
   \<and> thrown (run ex_runtime ex_args_zero_turns ex_world ''session_1_abc'') = None"
proof -
  have c: "snd (after_connect ex_args_zero_turns ex_world) = None"
    by (simp add: after_connect_def connect_def initial_state_def ex_world_def
          ex_args_zero_turns_def ex_args_def Let_def)
  have s: "setup_outcome ex_world = None" "interrupt_after ex_world = None"
    by (simp_all add: ex_world_def)
  have mt: "\<not> (int 0 < maxTurns_of ex_args_zero_turns \<and> \<not> isInterrupted st)" for st
    by (simp add: ex_args_facts)
  obtain st1 where ac: "after_connect ex_args_zero_turns ex_world = (st1, None)"
    using c by (cases "after_connect ex_args_zero_turns ex_world") simp
  have r: "run ex_runtime ex_args_zero_turns ex_world ''session_1_abc'' =
             run_session ex_runtime ex_args_zero_turns ex_world ''session_1_abc'' st1"
    unfolding run_def ac using s by simp
  have t: "turns (run ex_runtime ex_args_zero_turns ex_world ''session_1_abc'') = 0"
    unfolding r turns_run_session by (simp add: turn_loop_not_entered [OF mt])
  have th: "thrown (run ex_runtime ex_args_zero_turns ex_world ''session_1_abc'') = None"
    unfolding r run_session_def by (simp add: turn_loop_not_entered [OF mt] Let_def)
  show ?thesis using ex_args_facts(3) c s t th by simp
qed

section \<open>Teardown: the snapshot policy\<close>

lemma shouldSnapshot_policy:
  "(case snapshot args of
      Some so \<Rightarrow> mode so = Always \<or> (mode so = OnSuccess \<and> success)
    | None \<Rightarrow> (if snapshotEnabled_of args then success else False))
   = snapshot_policy (snapshot args) (snapshotEnabled_of args) success"
proof (cases "snapshot args")
  case None
  then show ?thesis by (simp add: snapshot_policy_def)
next
  case (Some so)
  then show ?thesis by (cases "mode so") (simp_all add: snapshot_policy_def)
qed

lemma handleSnapshot_disconnected:
  "\<not> isConnected (transport_of st) \<Longrightarrow> handleSnapshot args w success st = st"
  by (simp add: handleSnapshot_def)

lemma handleSnapshot_not_due:
  "\<not> snapshot_policy (snapshot args) (snapshotEnabled_of args) success \<Longrightarrow>
   handleSnapshot args w success st = st"
  unfolding handleSnapshot_def Let_def shouldSnapshot_policy by simp

lemma createSnapshot_failure:
  "sandbox this = Some h \<Longrightarrow> snapshot_outcome w = Inl err \<Longrightarrow>
   createSnapshotWithInfo w (this, evs) =
     ((this, evs @ [SnapshotCalled h False]),
      Inl (SDKError (''Failed to create snapshot: '' @ message_or err ''unknown error'')
             ''SANDBOX_ERROR''))"
  by (simp add: createSnapshotWithInfo_def)

lemma createSnapshot_success:
  "sandbox this = Some h \<Longrightarrow> snapshot_outcome w = Inr sid \<Longrightarrow>
   \<exists>info. createSnapshotWithInfo w (this, evs) =
     ((this\<lparr>isConnected := False, sandbox := None\<rparr>, evs @ [SnapshotCalled h True]), Inr info)
     \<and> snapshotId info = sid"
  by (simp add: createSnapshotWithInfo_def)

lemma handleSnapshot_failure:
  assumes "isConnected (transport_of st)"
      and "snapshot_policy (snapshot args) (snapshotEnabled_of args) success"
      and "sandbox (transport_of st) = Some h"
      and "snapshot_outcome w = Inl err"
  shows "sandbox_log (handleSnapshot args w success st) = sandbox_log st @ [SnapshotCalled h False]"
    and "snapshotInfo (handleSnapshot args w success st) = snapshotInfo st"
    and "transport_of (handleSnapshot args w success st) = transport_of st"
  using assms unfolding handleSnapshot_def Let_def shouldSnapshot_policy
  by (simp_all add: createSnapshot_failure)

lemma handleSnapshot_success:
  assumes "isConnected (transport_of st)"
      and "snapshot_policy (snapshot args) (snapshotEnabled_of args) success"
      and "sandbox (transport_of st) = Some h"
      and "snapshot_outcome w = Inr sid"
  shows "sandbox_log (handleSnapshot args w success st) = sandbox_log st @ [SnapshotCalled h True]"
    and "\<exists>info. snapshotInfo (handleSnapshot args w success st) = Some info \<and> snapshotId info = sid"
    and "sandbox (transport_of (handleSnapshot args w success st)) = None"
    and "\<not> isConnected (transport_of (handleSnapshot args w success st))"
proof -
  obtain info where c: "createSnapshotWithInfo w (transport_of st, sandbox_log st) =
     (((transport_of st)\<lparr>isConnected := False, sandbox := None\<rparr>,
       sandbox_log st @ [SnapshotCalled h True]), Inr info)" and i: "snapshotId info = sid"
    using createSnapshot_success [OF assms(3,4), of "sandbox_log st"] by blast
  show "sandbox_log (handleSnapshot args w success st) = sandbox_log st @ [SnapshotCalled h True]"
    using assms(1,2) unfolding handleSnapshot_def shouldSnapshot_policy Let_def
    by (simp add: c split: option.splits)
  show "\<exists>info. snapshotInfo (handleSnapshot args w success st) = Some info \<and> snapshotId info = sid"
    using assms(1,2) i unfolding handleSnapshot_def shouldSnapshot_policy Let_def
    by (simp add: c split: option.splits)
  show "sandbox (transport_of (handleSnapshot args w success st)) = None"
    using assms(1,2) unfolding handleSnapshot_def shouldSnapshot_policy Let_def
    by (simp add: c split: option.splits)
  show "\<not> isConnected (transport_of (handleSnapshot args w success st))"
    using assms(1,2) unfolding handleSnapshot_def shouldSnapshot_policy Let_def
    by (simp add: c split: option.splits)
qed

text \<open>What \<^verbatim>\<open>handleSnapshot\<close> does to the service log and the recorded snapshot, for either
  value of the success flag it is given.\<close>

lemma handleSnapshot_log:
  assumes "sandbox (transport_of st) = Some h"
  shows "sandbox_log (handleSnapshot args w success st) =
           sandbox_log st @
             (if isConnected (transport_of st)
                 \<and> snapshot_policy (snapshot args) (snapshotEnabled_of args) success
              then [SnapshotCalled h (snapshot_succeeds w)] else [])
       \<and> (isConnected (transport_of st)
             \<and> snapshot_policy (snapshot args) (snapshotEnabled_of args) success
             \<and> snapshot_outcome w = Inr sid
           \<longrightarrow> (\<exists>info. snapshotInfo (handleSnapshot args w success st) = Some info
                        \<and> snapshotId info = sid))
       \<and> (\<not> (isConnected (transport_of st)
                \<and> snapshot_policy (snapshot args) (snapshotEnabled_of args) success
                \<and> snapshot_succeeds w)
           \<longrightarrow> snapshotInfo (handleSnapshot args w success st) = snapshotInfo st)"
proof (cases "isConnected (transport_of st)
                 \<and> snapshot_policy (snapshot args) (snapshotEnabled_of args) success")
  case False
  then have "handleSnapshot args w success st = st"
    using handleSnapshot_disconnected [of st args w success]
      handleSnapshot_not_due [of args success w st] by blast
  then show ?thesis using False by auto
next
  case True
  then have c: "isConnected (transport_of st)"
    and p: "snapshot_policy (snapshot args) (snapshotEnabled_of args) success" by simp_all
  show ?thesis
  proof (cases "snapshot_outcome w")
    case (Inl err)
    then show ?thesis
      using True handleSnapshot_failure [OF c p assms Inl]
      by (simp add: snapshot_succeeds_def)
  next
    case (Inr sid')
    then show ?thesis
      using True handleSnapshot_success [OF c p assms Inr]
      by (auto simp: snapshot_succeeds_def)
  qed
qed

section \<open>Teardown: closing the transport\<close>

lemma teardown_hook_throws:
  assumes "onTeardown (hooks args) = Some hook"
      and "isConnected (transport_of st)"
      and "sandbox (transport_of st) = Some h"
      and "hook \<lparr>info_success = success, info_error = err,
                 durationMs = int (time_end w) - int (time_start w),
                 messagesCount = length (messages st)\<rparr> = Some teardownError"
  shows "handleTeardownAndLifecycle args w success err st =
           st\<lparr>console_errors := console_errors st @ [teardownError]\<rparr>"
  using assms by (simp add: handleTeardownAndLifecycle_def Let_def)

lemma teardown_without_hook_error:
  assumes "onTeardown (hooks args) = None \<or> \<not> isConnected (transport_of st)"
  shows "handleTeardownAndLifecycle args w success err st =
           (let st1 = handleSnapshot args w success st;
                ts = close w (transport_of st1, sandbox_log st1)
            in st1\<lparr>transport_of := fst ts, sandbox_log := snd ts\<rparr>)"
  using assms by (auto simp: handleTeardownAndLifecycle_def Let_def split: option.splits)

lemma close_releases:
  "sandbox (fst (close w ts)) = None" "\<not> isConnected (fst (close w ts))"
  by (simp_all add: close_def Let_def split: option.splits)

lemma close_some:
  "sandbox this = Some h \<Longrightarrow>
   close w (this, evs) =
     (this\<lparr>sandbox := None, isConnected := False, currentSessionId := None\<rparr>, evs @ [StopCalled h])"
  by (simp add: close_def)

lemma close_none:
  "sandbox this = None \<Longrightarrow>
   close w (this, evs) = (this\<lparr>isConnected := False, currentSessionId := None\<rparr>, evs)"
  by (simp add: close_def)

text \<open>Without a teardown hook, teardown always ends with the transport closed.\<close>

lemma teardown_closes_without_hook:
  assumes "onTeardown (hooks args) = None"
  shows "sandbox (transport_of (handleTeardownAndLifecycle args w success err st)) = None"
    and "\<not> isConnected (transport_of (handleTeardownAndLifecycle args w success err st))"
  using assms by (simp_all add: teardown_without_hook_error Let_def close_releases)

lemma final_run_failed:
  "final (run_failed rt args w st n err) =
     handleTeardownAndLifecycle args w False (Some (as_error rt err)) st"
  by (simp add: run_failed_def)

lemma final_run_is_teardown:
  "\<exists>success err st. final (run rt args w sid) = handleTeardownAndLifecycle args w success err st
      \<and> resources st = resources (fst (after_connect args w))"
proof -
  obtain st1 cerr where c: "after_connect args w = (st1, cerr)" by (cases "after_connect args w")
  have failed: "\<exists>success err st. final (run_failed rt args w st1 0 e) =
        handleTeardownAndLifecycle args w success err st \<and> resources st = resources st1" for e
    unfolding final_run_failed by blast
  show ?thesis
  proof (cases cerr)
    case (Some e)
    then show ?thesis unfolding run_def c using failed [of e] by simp
  next
    case None
    show ?thesis
    proof (cases "setup_outcome w")
      case (Some e)
      then show ?thesis unfolding run_def c using None failed [of e] by simp
    next
      case n2: None
      obtain st4 n failure
        where l: "turn_loop rt args w sid 0 [] (prompt args) (loop_entry args w sid st1) = (st4, n, failure)"
        by (cases "turn_loop rt args w sid 0 [] (prompt args) (loop_entry args w sid st1)")
      have r4: "resources st4 = resources st1" by (rule resources_after_loop [OF l])
      have r: "run rt args w sid = run_session rt args w sid st1"
        unfolding run_def c using None n2 by simp
      show ?thesis
      proof (cases failure)
        case (Some e)
        have "final (run rt args w sid) =
            handleTeardownAndLifecycle args w False (Some (as_error rt e)) st4"
          unfolding r run_session_def l using Some by (simp add: final_run_failed)
        then show ?thesis using r4 c by auto
      next
        case n3: None
        let ?st5 = "emit w (endMessage w sid (length (yielded st4))) st4"
        let ?st6 = "?st5\<lparr>messages := messages ?st5 @ [endMessage w sid (length (yielded st4))]\<rparr>"
        have "final (run rt args w sid) = handleTeardownAndLifecycle args w True None ?st6"
          unfolding r run_session_def l using n3 by (simp add: Let_def)
        moreover have "resources ?st6 = resources st1"
          by (simp add: resources_push resources_emit r4)
        ultimately show ?thesis using c by auto
      qed
    qed
  qed
qed

lemma run_closes_without_hook:
  assumes "onTeardown (hooks args) = None"
  shows "sandbox (transport_of (final (run rt args w sid))) = None"
proof -
  have "\<exists>success err st. final (run rt args w sid) =
          handleTeardownAndLifecycle args w success err st"
    unfolding run_def run_session_def run_failed_def Let_def
    by (auto split: prod.splits option.splits)
  then show ?thesis using teardown_closes_without_hook(1) [OF assms] by auto
qed

lemma after_connect_created:
  assumes "has_credentials w" "create_outcome w = Inr h"
  shows "sandbox (transport_of (fst (after_connect args w))) = Some h"
    and "sandbox_log (fst (after_connect args w)) = [Created h]"
  using assms
  by (simp_all add: after_connect_def connect_def initial_state_def Let_def split: option.splits)

lemma releases_simps:
  "releases h [] = 0"
  "releases h (evs @ [StopCalled h]) = Suc (releases h evs)"
  "releases h (evs @ [SnapshotCalled h True]) = Suc (releases h evs)"
  "releases h (evs @ [SnapshotCalled h False]) = releases h evs"
  "releases h [Created h'] = 0"
  by (simp_all add: releases_def)

text \<open>If the teardown hook, when there is one, returns normally, teardown releases a
  sandbox that is still held exactly once, by a snapshot or by \<^verbatim>\<open>stop()\<close>.\<close>

lemma teardown_releases_once:
  assumes no_throw: "hook_returns args"
      and h: "sandbox (transport_of st) = Some h"
  shows "releases h (sandbox_log (handleTeardownAndLifecycle args w success err st))
           = Suc (releases h (sandbox_log st))
       \<and> sandbox (transport_of (handleTeardownAndLifecycle args w success err st)) = None"
proof -
  let ?st1 = "handleSnapshot args w success st"
  have u: "handleTeardownAndLifecycle args w success err st =
      ?st1\<lparr>transport_of := fst (close w (transport_of ?st1, sandbox_log ?st1)),
           sandbox_log := snd (close w (transport_of ?st1, sandbox_log ?st1))\<rparr>"
  proof (cases "onTeardown (hooks args)")
    case None
    then show ?thesis by (simp add: handleTeardownAndLifecycle_def Let_def)
  next
    case (Some hook)
    then show ?thesis using no_throw h
      by (simp add: handleTeardownAndLifecycle_def Let_def hook_returns_def)
  qed
  show ?thesis
  proof (cases "isConnected (transport_of st)
                 \<and> snapshot_policy (snapshot args) (snapshotEnabled_of args) success")
    case False
    then have "?st1 = st"
      using handleSnapshot_disconnected [of st args w success]
        handleSnapshot_not_due [of args success w st] by blast
    then show ?thesis unfolding u using h by (simp add: close_some releases_simps)
  next
    case True
    then have c: "isConnected (transport_of st)"
      and p: "snapshot_policy (snapshot args) (snapshotEnabled_of args) success" by simp_all
    show ?thesis
    proof (cases "snapshot_outcome w")
      case (Inl e)
      note f = handleSnapshot_failure [OF c p h Inl]
      have "sandbox (transport_of ?st1) = Some h" using f(3) h by simp
      then show ?thesis unfolding u using f(1) by (simp add: close_some releases_def)
    next
      case (Inr sid)
      note s = handleSnapshot_success [OF c p h Inr]
      show ?thesis unfolding u using s(1,3) by (simp add: close_none releases_simps)
    qed
  qed
qed

text \<open>So a run whose teardown hook does not throw releases the sandbox it created exactly
  once, whatever its outcome.\<close>

lemma run_releases_once:
  assumes "hook_returns args"
      and "has_credentials w" "create_outcome w = Inr h"
  shows "releases h (sandbox_log (final (run rt args w sid))) = 1
       \<and> sandbox (transport_of (final (run rt args w sid))) = None"
proof -
  obtain success err st
    where f: "final (run rt args w sid) = handleTeardownAndLifecycle args w success err st"
      and r: "resources st = resources (fst (after_connect args w))"
    using final_run_is_teardown [of rt args w sid] by blast
  have s: "sandbox (transport_of st) = Some h" and l: "sandbox_log st = [Created h]"
    using r after_connect_created [OF assms(2,3), of args] by (simp_all add: resources_def)
  show ?thesis unfolding f
    using teardown_releases_once [OF assms(1) s, of w success err] l
    by (simp add: releases_simps)
qed

lemma ex_failing_after_connect:
  "after_connect ex_args_failing_teardown ex_world = (ex_connected, None)"
  by (simp add: after_connect_def connect_def initial_state_def ex_world_def ex_connected_def
        ex_args_failing_teardown_def ex_args_def Let_def)

text \<open>
  C7 holds when there is no teardown hook: the run ends with the transport closed. It
  fails when the \<^verbatim>\<open>onTeardown\<close> hook throws: the hook's error is caught and logged and
  the run still completes without error, but \<^verbatim>\<open>close()\<close>, placed after the hook inside
  the same \<^verbatim>\<open>try\<close>, is never reached; the sandbox created at connect is neither stopped
  nor snapshotted and the transport still holds it.
\<close>

theorem failing_teardown_hook_skips_close:
  "thrown (run ex_runtime ex_args_failing_teardown ex_world ''session_1_abc'') = None
   \<and> console_errors (final (run ex_runtime ex_args_failing_teardown ex_world ''session_1_abc''))
       = [NativeError ''teardown failed'']
   \<and> sandbox (transport_of (final (run ex_runtime ex_args_failing_teardown ex_world ''session_1_abc'')))
       = Some 1
   \<and> isConnected (transport_of (final (run ex_runtime ex_args_failing_teardown ex_world ''session_1_abc'')))
   \<and> sandbox_log (final (run ex_runtime ex_args_failing_teardown ex_world ''session_1_abc''))
       = [Created 1]"
proof -
  let ?args = ex_args_failing_teardown
  let ?sid = "''session_1_abc''"
  have mt: "0 < maxTurns_of ?args"
    by (simp add: maxTurns_of_def ex_args_failing_teardown_def ex_args_def)
  obtain st4 where l: "turn_loop ex_runtime ?args ex_world ?sid 0 [] (prompt ?args)
                         (loop_entry ?args ex_world ?sid ex_connected) = (st4, 1, None)"
    and r4: "resources st4 = resources ex_connected"
    using ex_turn_loop [OF mt, of ?sid "prompt ?args"] by blast
  let ?st5 = "emit ex_world (endMessage ex_world ?sid (length (yielded st4))) st4"
  let ?st6 = "?st5\<lparr>messages := messages ?st5 @ [endMessage ex_world ?sid (length (yielded st4))]\<rparr>"
  have r6: "resources ?st6 = (Some 1, True, None, [Created 1], None, [])"
    by (simp add: resources_push resources_emit r4 ex_connected_resources)
  have run_eq: "run ex_runtime ?args ex_world ?sid =
      \<lparr>final = handleTeardownAndLifecycle ?args ex_world True None ?st6, turns = 1, thrown = None\<rparr>"
    by (simp add: run_def ex_failing_after_connect ex_world_facts run_session_def l Let_def)
  have hook: "onTeardown (hooks ?args) = Some (\<lambda>info. Some (NativeError ''teardown failed''))"
    by (simp add: ex_args_failing_teardown_def)
  have c: "isConnected (transport_of ?st6)" "sandbox (transport_of ?st6) = Some 1"
    using r6 by (simp_all add: resources_def)
  have td: "handleTeardownAndLifecycle ?args ex_world True None ?st6 =
      ?st6\<lparr>console_errors := console_errors ?st6 @ [NativeError ''teardown failed'']\<rparr>"
    by (rule teardown_hook_throws [OF hook c]) simp
  have f: "resources (final (run ex_runtime ?args ex_world ?sid)) =
      (Some 1, True, None, [Created 1], None, [NativeError ''teardown failed''])"
    unfolding run_eq using r6 by (simp add: td resources_def)
  have t: "thrown (run ex_runtime ?args ex_world ?sid) = None"
    unfolding run_eq by simp
  show ?thesis using f t by (simp add: resources_def)
qed

section \<open>The snapshot policy over a run\<close>


text \<open>When \<^verbatim>\<open>connect\<close> succeeds: there is a credential, the sandbox is created, and the
  CLI installs unless the sandbox comes from a snapshot.\<close>

lemma connect_succeeds_iff:
  "connect_succeeds args w \<longleftrightarrow>
     has_credentials w \<and> (\<exists>h. create_outcome w = Inr h)
     \<and> ((\<exists>s. arg_snapshotId args = Some s \<and> s \<noteq> []) \<or> install_outcome w = None)"
  by (auto simp: connect_succeeds_def after_connect_def connect_def initial_state_def Let_def
        split: sum.splits option.splits if_splits)


















end
